theory Spec2Isabelle
  imports Main "HOL-Library.Word"
begin

section \<open>Divya Drishti: the Braille learner firmware (divya\_drishti1.ino)\<close>

text \<open>
  The firmware is one Arduino sketch for an ESP32. Its global variables become one record
  that every function takes and returns; the two function-local \<open>static\<close> timestamps of
  the interrupt routines are fields of it too. Every call into the board (servo, audio
  module, serial port, \<open>delay\<close>) is appended to the field \<open>trace\<close> in program order, and
  every \<open>millis()\<close> reading is a parameter of the function that reads it.
  \<open>unsigned long\<close> is 32 bits wide on the ESP32, so the timestamps are \<open>32 word\<close>;
  \<open>currentPosition\<close> is a C++ \<open>int\<close> whose values stay between 0 and 27 (see the two
  handlers and the range invariant below), far from the 32-bit limits, and is modelled as
  \<open>int\<close>.
\<close>

subsection \<open>Configuration constants\<close>

type_synonym millis = "32 word"

definition BUTTON_NEXT :: int where "BUTTON_NEXT = 13"
definition BUTTON_PREV :: int where "BUTTON_PREV = 14"

definition TOTAL_LETTERS :: int where "TOTAL_LETTERS = 26"
definition INTRO_AUDIO_TRACK :: int where "INTRO_AUDIO_TRACK = 27"
definition VOLUME_LEVEL :: int where "VOLUME_LEVEL = 25"
definition SERVO_MOVEMENT_DELAY :: int where "SERVO_MOVEMENT_DELAY = 500"
definition AUDIO_DISPLAY_DELAY :: millis where "AUDIO_DISPLAY_DELAY = 2000"
definition DEBOUNCE_DELAY :: millis where "DEBOUNCE_DELAY = 250"
definition INTRO_AUDIO_DURATION :: int where "INTRO_AUDIO_DURATION = 4000"

text \<open>The six servo objects \<open>servoDot1\<close> .. \<open>servoDot6\<close>.\<close>

datatype dot = Dot1 | Dot2 | Dot3 | Dot4 | Dot5 | Dot6

text \<open>Namespace \<open>Pins\<close>: the pin of each servo.\<close>

fun SERVO_PIN :: "dot \<Rightarrow> int" where
  "SERVO_PIN Dot1 = 4"
| "SERVO_PIN Dot2 = 5"
| "SERVO_PIN Dot3 = 26"
| "SERVO_PIN Dot4 = 25"
| "SERVO_PIN Dot5 = 33"
| "SERVO_PIN Dot6 = 32"

text \<open>Namespace \<open>ServoAngles\<close>: the calibrated raised and lowered angle of each dot.\<close>

fun DOT_UP :: "dot \<Rightarrow> int" where
  "DOT_UP Dot1 = 175"
| "DOT_UP Dot2 = 20"
| "DOT_UP Dot3 = 180"
| "DOT_UP Dot4 = 0"
| "DOT_UP Dot5 = 150"
| "DOT_UP Dot6 = 0"

fun DOT_DOWN :: "dot \<Rightarrow> int" where
  "DOT_DOWN Dot1 = 155"
| "DOT_DOWN Dot2 = 0"
| "DOT_DOWN Dot3 = 165"
| "DOT_DOWN Dot4 = 20"
| "DOT_DOWN Dot5 = 185"
| "DOT_DOWN Dot6 = 20"

subsection \<open>State and effects\<close>

text \<open>
  What the sketch writes to the serial monitor, one constructor per message. \<open>Banner\<close>
  is the four-line box printed first, \<open>DFPlayerFailed\<close> the five lines printed when the
  audio module does not answer, \<open>NextLetter c\<close> and \<open>PreviousLetter c\<close> the line a
  handler prints with the new letter number (and the letter computed from it).
\<close>

datatype diag =
    Banner
  | ButtonsInitialized
  | ServosInitialized
  | DFPlayerFailed
  | DFPlayerInitialized
  | PlayingIntroduction
  | SystemReady
  | NextLetter int
  | PreviousLetter int

datatype isr = NextButtonISR | PrevButtonISR

datatype effect =
    SerialBegin
  | Print diag
  | PinMode int
  | ServoAttach dot int
  | ServoWrite dot int
  | FPSerialBegin
  | DFVolume int
  | DFPlay int
  | Delay int

record sys =
  nextButtonPressed :: bool
  prevButtonPressed :: bool
  currentPosition :: int
  lastActionTime :: millis
  isDisplayingPattern :: bool
  nextLastInterruptTime :: millis
  prevLastInterruptTime :: millis
  servos :: "dot \<Rightarrow> int option"
  interrupts :: "(int \<times> isr) list"
  trace :: "effect list"

text \<open>The globals as the C++ initialisers leave them, before \<open>setup()\<close> runs.\<close>

definition power_on :: sys where
  "power_on = \<lparr> nextButtonPressed = False, prevButtonPressed = False,
     currentPosition = 1, lastActionTime = 0, isDisplayingPattern = False,
     nextLastInterruptTime = 0, prevLastInterruptTime = 0,
     servos = (\<lambda>d. None), interrupts = [], trace = [] \<rparr>"

definition emit :: "effect \<Rightarrow> sys \<Rightarrow> sys" where
  "emit e s = s\<lparr>trace := trace s @ [e]\<rparr>"

text \<open>A block of statements, run first to last.\<close>

definition seq :: "(sys \<Rightarrow> sys) list \<Rightarrow> sys \<Rightarrow> sys" where
  "seq fs s = fold (\<lambda>f x. f x) fs s"

definition delay :: "int \<Rightarrow> sys \<Rightarrow> sys" where
  "delay ms = emit (Delay ms)"

definition println :: "diag \<Rightarrow> sys \<Rightarrow> sys" where
  "println d = emit (Print d)"

text \<open>\<open>servo.write(angle)\<close>: the servo holds the last angle written to it.\<close>

definition servo_write :: "dot \<Rightarrow> int \<Rightarrow> sys \<Rightarrow> sys" where
  "servo_write d a s = emit (ServoWrite d a) (s\<lparr>servos := (servos s)(d \<mapsto> a)\<rparr>)"

text \<open>\<open>attachInterrupt(digitalPinToInterrupt(pin), isr, FALLING)\<close>.\<close>

definition attachInterrupt :: "int \<Rightarrow> isr \<Rightarrow> sys \<Rightarrow> sys" where
  "attachInterrupt pin h s = s\<lparr>interrupts := (pin, h) # interrupts s\<rparr>"

subsection \<open>Servo control\<close>

definition setDot1 :: "bool \<Rightarrow> sys \<Rightarrow> sys" where
  "setDot1 raised = servo_write Dot1 (if raised then DOT_UP Dot1 else DOT_DOWN Dot1)"

definition setDot2 :: "bool \<Rightarrow> sys \<Rightarrow> sys" where
  "setDot2 raised = servo_write Dot2 (if raised then DOT_UP Dot2 else DOT_DOWN Dot2)"

definition setDot3 :: "bool \<Rightarrow> sys \<Rightarrow> sys" where
  "setDot3 raised = servo_write Dot3 (if raised then DOT_UP Dot3 else DOT_DOWN Dot3)"

definition setDot4 :: "bool \<Rightarrow> sys \<Rightarrow> sys" where
  "setDot4 raised = servo_write Dot4 (if raised then DOT_UP Dot4 else DOT_DOWN Dot4)"

definition setDot5 :: "bool \<Rightarrow> sys \<Rightarrow> sys" where
  "setDot5 raised = servo_write Dot5 (if raised then DOT_UP Dot5 else DOT_DOWN Dot5)"

definition setDot6 :: "bool \<Rightarrow> sys \<Rightarrow> sys" where
  "setDot6 raised = servo_write Dot6 (if raised then DOT_UP Dot6 else DOT_DOWN Dot6)"

definition clearAllDots :: "sys \<Rightarrow> sys" where
  "clearAllDots = seq [setDot1 False, setDot2 False, setDot3 False,
     setDot4 False, setDot5 False, setDot6 False, delay SERVO_MOVEMENT_DELAY]"

subsection \<open>Braille pattern display\<close>

text \<open>The \<open>switch\<close> has 26 cases and no \<open>default\<close>: any other number runs no case.\<close>

definition displayBraillePattern :: "int \<Rightarrow> sys \<Rightarrow> sys" where
  "displayBraillePattern letterNumber = seq [
     (if letterNumber = 1 then seq [setDot1 True]
      else if letterNumber = 2 then seq [setDot1 True, setDot2 True]
      else if letterNumber = 3 then seq [setDot1 True, setDot4 True]
      else if letterNumber = 4 then seq [setDot1 True, setDot4 True, setDot5 True]
      else if letterNumber = 5 then seq [setDot1 True, setDot5 True]
      else if letterNumber = 6 then seq [setDot1 True, setDot2 True, setDot4 True]
      else if letterNumber = 7 then seq [setDot1 True, setDot2 True, setDot4 True, setDot5 True]
      else if letterNumber = 8 then seq [setDot1 True, setDot2 True, setDot5 True]
      else if letterNumber = 9 then seq [setDot2 True, setDot4 True]
      else if letterNumber = 10 then seq [setDot2 True, setDot4 True, setDot5 True]
      else if letterNumber = 11 then seq [setDot1 True, setDot3 True]
      else if letterNumber = 12 then seq [setDot1 True, setDot2 True, setDot3 True]
      else if letterNumber = 13 then seq [setDot1 True, setDot3 True, setDot4 True]
      else if letterNumber = 14 then seq [setDot1 True, setDot3 True, setDot4 True, setDot5 True]
      else if letterNumber = 15 then seq [setDot1 True, setDot3 True, setDot5 True]
      else if letterNumber = 16 then seq [setDot1 True, setDot2 True, setDot3 True, setDot4 True]
      else if letterNumber = 17 then
        seq [setDot1 True, setDot2 True, setDot3 True, setDot4 True, setDot5 True]
      else if letterNumber = 18 then seq [setDot1 True, setDot2 True, setDot3 True, setDot5 True]
      else if letterNumber = 19 then seq [setDot2 True, setDot3 True, setDot4 True]
      else if letterNumber = 20 then seq [setDot2 True, setDot3 True, setDot4 True, setDot5 True]
      else if letterNumber = 21 then seq [setDot1 True, setDot3 True, setDot6 True]
      else if letterNumber = 22 then seq [setDot1 True, setDot2 True, setDot3 True, setDot6 True]
      else if letterNumber = 23 then seq [setDot2 True, setDot4 True, setDot5 True, setDot6 True]
      else if letterNumber = 24 then seq [setDot1 True, setDot3 True, setDot4 True, setDot6 True]
      else if letterNumber = 25 then
        seq [setDot1 True, setDot3 True, setDot4 True, setDot5 True, setDot6 True]
      else if letterNumber = 26 then seq [setDot1 True, setDot3 True, setDot5 True, setDot6 True]
      else seq []),
     delay SERVO_MOVEMENT_DELAY]"

definition playAudioForLetter :: "int \<Rightarrow> sys \<Rightarrow> sys" where
  "playAudioForLetter letterNumber = emit (DFPlay letterNumber)"

subsection \<open>Navigation handlers\<close>

text \<open>
  Each handler reads \<open>millis()\<close> once, after the two servo delays; the reading is the
  parameter \<open>now\<close>.
\<close>

definition handleNextButton :: "millis \<Rightarrow> sys \<Rightarrow> sys" where
  "handleNextButton now s =
     (let s1 = s\<lparr>currentPosition := currentPosition s + 1\<rparr>;
          s2 = (if currentPosition s1 > TOTAL_LETTERS then s1\<lparr>currentPosition := 1\<rparr> else s1)
      in seq [println (NextLetter (currentPosition s2)),
              clearAllDots,
              displayBraillePattern (currentPosition s2),
              playAudioForLetter (currentPosition s2),
              (\<lambda>x. x\<lparr>lastActionTime := now\<rparr>),
              (\<lambda>x. x\<lparr>isDisplayingPattern := True\<rparr>)] s2)"

definition handlePreviousButton :: "millis \<Rightarrow> sys \<Rightarrow> sys" where
  "handlePreviousButton now s =
     (let s1 = s\<lparr>currentPosition := currentPosition s - 1\<rparr>;
          s2 = (if currentPosition s1 < 1 then s1\<lparr>currentPosition := TOTAL_LETTERS\<rparr> else s1)
      in seq [println (PreviousLetter (currentPosition s2)),
              clearAllDots,
              displayBraillePattern (currentPosition s2),
              playAudioForLetter (currentPosition s2),
              (\<lambda>x. x\<lparr>lastActionTime := now\<rparr>),
              (\<lambda>x. x\<lparr>isDisplayingPattern := True\<rparr>)] s2)"

subsection \<open>Interrupt service routines\<close>

text \<open>
  \<open>currentTime - lastInterruptTime\<close> is an \<open>unsigned long\<close> subtraction (it wraps), and
  the \<open>int\<close> constant 250 is converted to \<open>unsigned long\<close> for the comparison.
\<close>

definition nextButtonISR :: "millis \<Rightarrow> sys \<Rightarrow> sys" where
  "nextButtonISR currentTime s =
     (if currentTime - nextLastInterruptTime s > DEBOUNCE_DELAY
      then s\<lparr>nextButtonPressed := True, nextLastInterruptTime := currentTime\<rparr>
      else s)"

definition prevButtonISR :: "millis \<Rightarrow> sys \<Rightarrow> sys" where
  "prevButtonISR currentTime s =
     (if currentTime - prevLastInterruptTime s > DEBOUNCE_DELAY
      then s\<lparr>prevButtonPressed := True, prevLastInterruptTime := currentTime\<rparr>
      else s)"

fun run_isr :: "isr \<Rightarrow> millis \<Rightarrow> sys \<Rightarrow> sys" where
  "run_isr NextButtonISR = nextButtonISR"
| "run_isr PrevButtonISR = prevButtonISR"

text \<open>
  A falling edge on a pin at time \<open>t\<close>: the board calls the routine attached to that pin,
  if there is one.
\<close>

definition falling_edge :: "int \<Rightarrow> millis \<Rightarrow> sys \<Rightarrow> sys" where
  "falling_edge pin t s =
     (case map_of (interrupts s) pin of None \<Rightarrow> s | Some h \<Rightarrow> run_isr h t s)"

subsection \<open>Main loop\<close>

text \<open>
  One call of \<open>loop()\<close>. \<open>now\<close> is the \<open>millis()\<close> reading of the hold check, \<open>tn\<close> and
  \<open>tp\<close> are the readings inside the two handlers. The flags are read and cleared with the
  interrupts masked, so no routine runs between the four assignments.
\<close>

definition loop :: "millis \<Rightarrow> millis \<Rightarrow> millis \<Rightarrow> sys \<Rightarrow> sys" where
  "loop now tn tp s =
     (let s1 = (if isDisplayingPattern s \<and> now - lastActionTime s \<ge> AUDIO_DISPLAY_DELAY
                then s\<lparr>isDisplayingPattern := False\<rparr> else s);
          s2 = (if \<not> isDisplayingPattern s1 then
                  (let nextPressed = nextButtonPressed s1;
                       prevPressed = prevButtonPressed s1;
                       s3 = s1\<lparr>nextButtonPressed := False, prevButtonPressed := False\<rparr>;
                       s4 = (if nextPressed then handleNextButton tn s3 else s3);
                       s5 = (if prevPressed then handlePreviousButton tp s4 else s4)
                   in s5)
                else s1)
      in delay 10 s2)"

subsection \<open>Initialisation\<close>

definition initializeButtons :: "sys \<Rightarrow> sys" where
  "initializeButtons = seq [emit (PinMode BUTTON_NEXT), emit (PinMode BUTTON_PREV),
     attachInterrupt BUTTON_NEXT NextButtonISR,
     attachInterrupt BUTTON_PREV PrevButtonISR,
     println ButtonsInitialized]"

definition initializeServos :: "sys \<Rightarrow> sys" where
  "initializeServos = seq [emit (ServoAttach Dot1 (SERVO_PIN Dot1)),
     emit (ServoAttach Dot2 (SERVO_PIN Dot2)), emit (ServoAttach Dot3 (SERVO_PIN Dot3)),
     emit (ServoAttach Dot4 (SERVO_PIN Dot4)), emit (ServoAttach Dot5 (SERVO_PIN Dot5)),
     emit (ServoAttach Dot6 (SERVO_PIN Dot6)), println ServosInitialized]"

text \<open>
  A function of the sketch either returns, or is still inside \<open>while (1)\<close> when the
  observation ends. \<open>Spinning s\<close> carries the state reached so far.
\<close>

datatype run = Spinning sys | Returned sys

fun run_state :: "run \<Rightarrow> sys" where
  "run_state (Spinning s) = s"
| "run_state (Returned s) = s"

fun is_spinning :: "run \<Rightarrow> bool" where
  "is_spinning (Spinning s) = True"
| "is_spinning (Returned s) = False"

text \<open>
  \<open>while (1) { delay(1000); }\<close> observed for \<open>k\<close> iterations. The loop has no \<open>break\<close>
  and no \<open>return\<close>, so no equation produces \<open>Returned\<close>.
\<close>

fun halt_loop :: "nat \<Rightarrow> sys \<Rightarrow> run" where
  "halt_loop 0 s = Spinning s"
| "halt_loop (Suc k) s = halt_loop k (delay 1000 s)"

text \<open>\<open>beginOk\<close> is what \<open>dfPlayer.begin(FPSerial)\<close> returns.\<close>

definition initializeDFPlayer :: "nat \<Rightarrow> bool \<Rightarrow> sys \<Rightarrow> run" where
  "initializeDFPlayer k beginOk s =
     (let s1 = emit FPSerialBegin s;
          rest = seq [emit (DFVolume VOLUME_LEVEL), println DFPlayerInitialized]
      in if \<not> beginOk then
           (case halt_loop k (println DFPlayerFailed s1) of
              Spinning h \<Rightarrow> Spinning h
            | Returned s2 \<Rightarrow> Returned (rest s2))
         else Returned (rest s1))"

text \<open>The function \<open>setup()\<close> of the sketch; \<open>now\<close> is its one \<open>millis()\<close> reading.\<close>

definition setup_sketch :: "nat \<Rightarrow> bool \<Rightarrow> millis \<Rightarrow> sys \<Rightarrow> run" where
  "setup_sketch k beginOk now s =
     (case initializeDFPlayer k beginOk
             (seq [emit SerialBegin, println Banner, initializeButtons, initializeServos] s) of
        Spinning h \<Rightarrow> Spinning h
      | Returned s1 \<Rightarrow>
          Returned (seq [clearAllDots, delay 1000,
                         println PlayingIntroduction,
                         emit (DFPlay INTRO_AUDIO_TRACK),
                         delay INTRO_AUDIO_DURATION,
                         println SystemReady,
                         (\<lambda>x. displayBraillePattern (currentPosition x) x),
                         (\<lambda>x. playAudioForLetter (currentPosition x) x),
                         (\<lambda>x. x\<lparr>lastActionTime := now\<rparr>),
                         (\<lambda>x. x\<lparr>isDisplayingPattern := True\<rparr>)] s1))"

text \<open>
  What the board does to the sketch: a falling edge on a pin, or one call of \<open>loop()\<close>
  with its three clock readings.
\<close>

datatype event = Edge int millis | Poll millis millis millis

fun step :: "event \<Rightarrow> sys \<Rightarrow> sys" where
  "step (Edge pin t) = falling_edge pin t"
| "step (Poll now tn tp) = loop now tn tp"

fun is_edge :: "event \<Rightarrow> bool" where
  "is_edge (Edge pin t) = True"
| "is_edge (Poll now tn tp) = False"

text \<open>
  The Arduino core calls \<open>setup()\<close> once and, only when it has returned, \<open>loop()\<close> again
  and again. While \<open>setup()\<close> has not returned no \<open>loop()\<close> call happens, but the pins
  still see their edges.
\<close>

definition firmware :: "nat \<Rightarrow> bool \<Rightarrow> millis \<Rightarrow> event list \<Rightarrow> sys \<Rightarrow> run" where
  "firmware k beginOk now evs s =
     (case setup_sketch k beginOk now s of
        Spinning h \<Rightarrow> Spinning (fold step (filter is_edge evs) h)
      | Returned s1 \<Rightarrow> Returned (fold step evs s1))"

subsection \<open>Observations\<close>

text \<open>The servo writes of a trace, in order, and what a function appends to the trace.\<close>

fun servo_writes :: "effect list \<Rightarrow> (dot \<times> int) list" where
  "servo_writes [] = []"
| "servo_writes (ServoWrite d a # es) = (d, a) # servo_writes es"
| "servo_writes (e # es) = servo_writes es"

definition effects_of :: "(sys \<Rightarrow> sys) \<Rightarrow> sys \<Rightarrow> effect list" where
  "effects_of f s = drop (length (trace s)) (trace (f s))"

text \<open>The dots that a trace commands raised: those written with their own up angle.\<close>

definition raised_calls :: "effect list \<Rightarrow> dot set" where
  "raised_calls tr = set (map fst (filter (\<lambda>(d, a). a = DOT_UP d) (servo_writes tr)))"

text \<open>
  The table of section 4.1 of the specification, in its words: \<open>A=dot1; B=dots1,2;\<close> ...
  \<open>Z=dots1,3,5,6\<close>. It is written from the specification, not from the sketch.
\<close>

definition spec_pattern_for :: "int \<Rightarrow> dot set" where
  "spec_pattern_for n =
     (if n = 1 then {Dot1}
      else if n = 2 then {Dot1, Dot2}
      else if n = 3 then {Dot1, Dot4}
      else if n = 4 then {Dot1, Dot4, Dot5}
      else if n = 5 then {Dot1, Dot5}
      else if n = 6 then {Dot1, Dot2, Dot4}
      else if n = 7 then {Dot1, Dot2, Dot4, Dot5}
      else if n = 8 then {Dot1, Dot2, Dot5}
      else if n = 9 then {Dot2, Dot4}
      else if n = 10 then {Dot2, Dot4, Dot5}
      else if n = 11 then {Dot1, Dot3}
      else if n = 12 then {Dot1, Dot2, Dot3}
      else if n = 13 then {Dot1, Dot3, Dot4}
      else if n = 14 then {Dot1, Dot3, Dot4, Dot5}
      else if n = 15 then {Dot1, Dot3, Dot5}
      else if n = 16 then {Dot1, Dot2, Dot3, Dot4}
      else if n = 17 then {Dot1, Dot2, Dot3, Dot4, Dot5}
      else if n = 18 then {Dot1, Dot2, Dot3, Dot5}
      else if n = 19 then {Dot2, Dot3, Dot4}
      else if n = 20 then {Dot2, Dot3, Dot4, Dot5}
      else if n = 21 then {Dot1, Dot3, Dot6}
      else if n = 22 then {Dot1, Dot2, Dot3, Dot6}
      else if n = 23 then {Dot2, Dot4, Dot5, Dot6}
      else if n = 24 then {Dot1, Dot3, Dot4, Dot6}
      else if n = 25 then {Dot1, Dot3, Dot4, Dot5, Dot6}
      else if n = 26 then {Dot1, Dot3, Dot5, Dot6}
      else {})"

text \<open>
  An edge is recorded when the routine sets the pending flag for it; the flag is cleared
  first so that an older pending press does not hide the answer. \<open>next_recorded\<close> counts
  the recorded edges of a train of NEXT edges, \<open>prev_recorded\<close> those of PREV edges.
\<close>

definition next_edge_recorded :: "millis \<Rightarrow> sys \<Rightarrow> bool" where
  "next_edge_recorded t s = nextButtonPressed (nextButtonISR t (s\<lparr>nextButtonPressed := False\<rparr>))"

definition prev_edge_recorded :: "millis \<Rightarrow> sys \<Rightarrow> bool" where
  "prev_edge_recorded t s = prevButtonPressed (prevButtonISR t (s\<lparr>prevButtonPressed := False\<rparr>))"

fun next_recorded :: "millis list \<Rightarrow> sys \<Rightarrow> nat" where
  "next_recorded [] s = 0"
| "next_recorded (t # ts) s =
     (if next_edge_recorded t s then 1 else 0) + next_recorded ts (nextButtonISR t s)"

fun prev_recorded :: "millis list \<Rightarrow> sys \<Rightarrow> nat" where
  "prev_recorded [] s = 0"
| "prev_recorded (t # ts) s =
     (if prev_edge_recorded t s then 1 else 0) + prev_recorded ts (prevButtonISR t s)"

text \<open>The transitions a trace shows: each handler prints one line when it runs.\<close>

fun next_transitions :: "effect list \<Rightarrow> int list" where
  "next_transitions [] = []"
| "next_transitions (Print (NextLetter c) # es) = c # next_transitions es"
| "next_transitions (e # es) = next_transitions es"

fun prev_transitions :: "effect list \<Rightarrow> int list" where
  "prev_transitions [] = []"
| "prev_transitions (Print (PreviousLetter c) # es) = c # prev_transitions es"
| "prev_transitions (e # es) = prev_transitions es"

text \<open>The audio tracks a trace asks the module to play, in order.\<close>

fun audio_plays :: "effect list \<Rightarrow> int list" where
  "audio_plays [] = []"
| "audio_plays (DFPlay n # es) = n # audio_plays es"
| "audio_plays (e # es) = audio_plays es"

text \<open>
  An event of the display hold that began at \<open>since\<close>: any edge, or a poll whose hold
  check finds less than the hold time elapsed.
\<close>

fun in_hold :: "millis \<Rightarrow> event \<Rightarrow> bool" where
  "in_hold since (Edge pin t) = True"
| "in_hold since (Poll now tn tp) = (now - since < AUDIO_DISPLAY_DELAY)"

section \<open>Properties\<close>

subsection \<open>What each function leaves alone\<close>

lemma seq_Nil [simp]: "seq [] s = s"
  by (simp add: seq_def)

lemma seq_Cons [simp]: "seq (f # fs) s = seq fs (f s)"
  by (simp add: seq_def)

lemma emit_fields [simp]:
  "nextButtonPressed (emit e s) = nextButtonPressed s"
  "prevButtonPressed (emit e s) = prevButtonPressed s"
  "currentPosition (emit e s) = currentPosition s"
  "lastActionTime (emit e s) = lastActionTime s"
  "isDisplayingPattern (emit e s) = isDisplayingPattern s"
  "nextLastInterruptTime (emit e s) = nextLastInterruptTime s"
  "prevLastInterruptTime (emit e s) = prevLastInterruptTime s"
  "servos (emit e s) = servos s"
  "interrupts (emit e s) = interrupts s"
  "trace (emit e s) = trace s @ [e]"
  by (simp_all add: emit_def)

lemma servo_write_fields [simp]:
  "nextButtonPressed (servo_write d a s) = nextButtonPressed s"
  "prevButtonPressed (servo_write d a s) = prevButtonPressed s"
  "currentPosition (servo_write d a s) = currentPosition s"
  "lastActionTime (servo_write d a s) = lastActionTime s"
  "isDisplayingPattern (servo_write d a s) = isDisplayingPattern s"
  "nextLastInterruptTime (servo_write d a s) = nextLastInterruptTime s"
  "prevLastInterruptTime (servo_write d a s) = prevLastInterruptTime s"
  "servos (servo_write d a s) = (servos s)(d \<mapsto> a)"
  "interrupts (servo_write d a s) = interrupts s"
  "trace (servo_write d a s) = trace s @ [ServoWrite d a]"
  by (simp_all add: servo_write_def)

lemmas setDot_defs = setDot1_def setDot2_def setDot3_def setDot4_def setDot5_def setDot6_def

lemma clearAllDots_fields [simp]:
  "nextButtonPressed (clearAllDots s) = nextButtonPressed s"
  "prevButtonPressed (clearAllDots s) = prevButtonPressed s"
  "currentPosition (clearAllDots s) = currentPosition s"
  "lastActionTime (clearAllDots s) = lastActionTime s"
  "isDisplayingPattern (clearAllDots s) = isDisplayingPattern s"
  "nextLastInterruptTime (clearAllDots s) = nextLastInterruptTime s"
  "prevLastInterruptTime (clearAllDots s) = prevLastInterruptTime s"
  "interrupts (clearAllDots s) = interrupts s"
  by (simp_all add: clearAllDots_def setDot_defs delay_def)

lemma displayBraillePattern_fields [simp]:
  "nextButtonPressed (displayBraillePattern n s) = nextButtonPressed s"
  "prevButtonPressed (displayBraillePattern n s) = prevButtonPressed s"
  "currentPosition (displayBraillePattern n s) = currentPosition s"
  "lastActionTime (displayBraillePattern n s) = lastActionTime s"
  "isDisplayingPattern (displayBraillePattern n s) = isDisplayingPattern s"
  "nextLastInterruptTime (displayBraillePattern n s) = nextLastInterruptTime s"
  "prevLastInterruptTime (displayBraillePattern n s) = prevLastInterruptTime s"
  "interrupts (displayBraillePattern n s) = interrupts s"
  by (simp_all add: displayBraillePattern_def setDot_defs delay_def)

lemma handleNextButton_currentPosition:
  "currentPosition (handleNextButton t s) =
     (if currentPosition s + 1 > 26 then 1 else currentPosition s + 1)"
  by (simp add: handleNextButton_def Let_def TOTAL_LETTERS_def println_def playAudioForLetter_def)

lemma handlePreviousButton_currentPosition:
  "currentPosition (handlePreviousButton t s) =
     (if currentPosition s - 1 < 1 then 26 else currentPosition s - 1)"
  by (simp add: handlePreviousButton_def Let_def TOTAL_LETTERS_def println_def playAudioForLetter_def)

lemma playAudioForLetter_fields [simp]:
  "nextButtonPressed (playAudioForLetter n s) = nextButtonPressed s"
  "prevButtonPressed (playAudioForLetter n s) = prevButtonPressed s"
  "currentPosition (playAudioForLetter n s) = currentPosition s"
  "lastActionTime (playAudioForLetter n s) = lastActionTime s"
  "isDisplayingPattern (playAudioForLetter n s) = isDisplayingPattern s"
  "nextLastInterruptTime (playAudioForLetter n s) = nextLastInterruptTime s"
  "prevLastInterruptTime (playAudioForLetter n s) = prevLastInterruptTime s"
  "servos (playAudioForLetter n s) = servos s"
  "interrupts (playAudioForLetter n s) = interrupts s"
  "trace (playAudioForLetter n s) = trace s @ [DFPlay n]"
  by (simp_all add: playAudioForLetter_def)

lemma handleNextButton_fields [simp]:
  "nextButtonPressed (handleNextButton t s) = nextButtonPressed s"
  "prevButtonPressed (handleNextButton t s) = prevButtonPressed s"
  "lastActionTime (handleNextButton t s) = t"
  "isDisplayingPattern (handleNextButton t s) = True"
  "nextLastInterruptTime (handleNextButton t s) = nextLastInterruptTime s"
  "prevLastInterruptTime (handleNextButton t s) = prevLastInterruptTime s"
  "interrupts (handleNextButton t s) = interrupts s"
  by (simp_all add: handleNextButton_def Let_def println_def)

lemma handlePreviousButton_fields [simp]:
  "nextButtonPressed (handlePreviousButton t s) = nextButtonPressed s"
  "prevButtonPressed (handlePreviousButton t s) = prevButtonPressed s"
  "lastActionTime (handlePreviousButton t s) = t"
  "isDisplayingPattern (handlePreviousButton t s) = True"
  "nextLastInterruptTime (handlePreviousButton t s) = nextLastInterruptTime s"
  "prevLastInterruptTime (handlePreviousButton t s) = prevLastInterruptTime s"
  "interrupts (handlePreviousButton t s) = interrupts s"
  by (simp_all add: handlePreviousButton_def Let_def println_def)

lemma nextButtonISR_fields [simp]:
  "prevButtonPressed (nextButtonISR t s) = prevButtonPressed s"
  "currentPosition (nextButtonISR t s) = currentPosition s"
  "lastActionTime (nextButtonISR t s) = lastActionTime s"
  "isDisplayingPattern (nextButtonISR t s) = isDisplayingPattern s"
  "prevLastInterruptTime (nextButtonISR t s) = prevLastInterruptTime s"
  "servos (nextButtonISR t s) = servos s"
  "interrupts (nextButtonISR t s) = interrupts s"
  "trace (nextButtonISR t s) = trace s"
  by (simp_all add: nextButtonISR_def)

lemma prevButtonISR_fields [simp]:
  "nextButtonPressed (prevButtonISR t s) = nextButtonPressed s"
  "currentPosition (prevButtonISR t s) = currentPosition s"
  "lastActionTime (prevButtonISR t s) = lastActionTime s"
  "isDisplayingPattern (prevButtonISR t s) = isDisplayingPattern s"
  "nextLastInterruptTime (prevButtonISR t s) = nextLastInterruptTime s"
  "servos (prevButtonISR t s) = servos s"
  "interrupts (prevButtonISR t s) = interrupts s"
  "trace (prevButtonISR t s) = trace s"
  by (simp_all add: prevButtonISR_def)

lemma run_isr_fields [simp]:
  "currentPosition (run_isr h t s) = currentPosition s"
  "lastActionTime (run_isr h t s) = lastActionTime s"
  "isDisplayingPattern (run_isr h t s) = isDisplayingPattern s"
  "servos (run_isr h t s) = servos s"
  "interrupts (run_isr h t s) = interrupts s"
  "trace (run_isr h t s) = trace s"
  by (cases h; simp)+

lemma run_isr_keeps_flags:
  "nextButtonPressed s \<Longrightarrow> nextButtonPressed (run_isr h t s)"
  "prevButtonPressed s \<Longrightarrow> prevButtonPressed (run_isr h t s)"
  by (cases h; simp add: nextButtonISR_def prevButtonISR_def)+

lemma falling_edge_fields [simp]:
  "currentPosition (falling_edge pin t s) = currentPosition s"
  "lastActionTime (falling_edge pin t s) = lastActionTime s"
  "isDisplayingPattern (falling_edge pin t s) = isDisplayingPattern s"
  "servos (falling_edge pin t s) = servos s"
  "interrupts (falling_edge pin t s) = interrupts s"
  "trace (falling_edge pin t s) = trace s"
  by (simp_all add: falling_edge_def split: option.splits)

lemma falling_edge_keeps_flags:
  "nextButtonPressed s \<Longrightarrow> nextButtonPressed (falling_edge pin t s)"
  "prevButtonPressed s \<Longrightarrow> prevButtonPressed (falling_edge pin t s)"
  by (simp_all add: falling_edge_def run_isr_keeps_flags split: option.splits)

lemma loop_currentPosition:
  "currentPosition (loop now tn tp s) =
     (if isDisplayingPattern s \<and> \<not> AUDIO_DISPLAY_DELAY \<le> now - lastActionTime s
      then currentPosition s
      else let c1 = (if nextButtonPressed s
                     then (if currentPosition s + 1 > 26 then 1 else currentPosition s + 1)
                     else currentPosition s)
           in if prevButtonPressed s then (if c1 - 1 < 1 then 26 else c1 - 1) else c1)"
  by (simp add: loop_def Let_def delay_def handleNextButton_currentPosition
      handlePreviousButton_currentPosition)

lemma step_range:
  "1 \<le> currentPosition s \<and> currentPosition s \<le> 26 \<Longrightarrow>
   1 \<le> currentPosition (step e s) \<and> currentPosition (step e s) \<le> 26"
  by (cases e) (auto simp: loop_currentPosition Let_def)

lemma run_range:
  "1 \<le> currentPosition s \<and> currentPosition s \<le> 26 \<Longrightarrow>
   1 \<le> currentPosition (fold step evs s) \<and> currentPosition (fold step evs s) \<le> 26"
proof (induction evs arbitrary: s)
  case Nil
  then show ?case by simp
next
  case (Cons e evs)
  have "1 \<le> currentPosition (step e s) \<and> currentPosition (step e s) \<le> 26"
    using Cons.prems by (rule step_range)
  then show ?case using Cons.IH by simp
qed

lemma halt_loop_spins: "halt_loop k s = Spinning (run_state (halt_loop k s))"
  by (induction k arbitrary: s) simp_all

lemma halt_loop_currentPosition [simp]:
  "currentPosition (run_state (halt_loop k s)) = currentPosition s"
  by (induction k arbitrary: s) (simp_all add: delay_def)

lemma setup_currentPosition:
  "currentPosition (run_state (setup_sketch k ok t0 power_on)) = 1"
  apply (cases ok)
  apply (simp_all add: setup_sketch_def initializeDFPlayer_def Let_def initializeButtons_def initializeServos_def
      println_def delay_def attachInterrupt_def power_on_def)
  apply (subst halt_loop_spins) apply simp
  done

subsection \<open>The letter index\<close>

lemma firmware_currentPosition:
  "1 \<le> currentPosition (run_state (firmware k ok t0 evs power_on)) \<and>
   currentPosition (run_state (firmware k ok t0 evs power_on)) \<le> 26"
proof -
  have start: "1 \<le> currentPosition (run_state (setup_sketch k ok t0 power_on)) \<and>
    currentPosition (run_state (setup_sketch k ok t0 power_on)) \<le> 26"
    by (simp add: setup_currentPosition)
  show ?thesis
  proof (cases "setup_sketch k ok t0 power_on")
    case (Spinning h)
    then show ?thesis using start run_range [of h "filter is_edge evs"]
      by (simp add: firmware_def)
  next
    case (Returned s1)
    then show ?thesis using start run_range [of s1 evs]
      by (simp add: firmware_def)
  qed
qed

text \<open>
  Claim C1. \<open>currentPosition\<close> is 1 when the globals are created, and it lies in 1..26 in
  every state the firmware reaches: after \<open>setup()\<close> (whether or not the audio module
  came up) and after any sequence of button edges and \<open>loop()\<close> calls. An edge never
  changes it; a \<open>loop()\<close> call changes it only through the two handlers (neither, NEXT,
  PREV, or NEXT then PREV); and on a value in 1..26 the NEXT handler gives the successor with
  26 wrapping to 1, the PREV handler the predecessor with 1 wrapping to 26, so the ends are
  never held by clamping.
\<close>

theorem currentPosition_in_range:
  "currentPosition power_on = 1 \<and>
   (let r = run_state (firmware k ok t0 evs power_on)
    in 1 \<le> currentPosition r \<and> currentPosition r \<le> 26) \<and>
   currentPosition (step (Edge pin t) s) = currentPosition s \<and>
   currentPosition (step (Poll now tn tp) s) \<in>
     {currentPosition s, currentPosition (handleNextButton tn s),
      currentPosition (handlePreviousButton tp s),
      currentPosition (handlePreviousButton tp (handleNextButton tn s))} \<and>
   (1 \<le> currentPosition s \<and> currentPosition s \<le> 26 \<longrightarrow>
      currentPosition (handleNextButton tn s) =
        (if currentPosition s = 26 then 1 else currentPosition s + 1) \<and>
      currentPosition (handlePreviousButton tp s) =
        (if currentPosition s = 1 then 26 else currentPosition s - 1))"
proof -
  have a: "currentPosition power_on = 1"
    by (simp add: power_on_def)
  have b: "let r = run_state (firmware k ok t0 evs power_on)
    in 1 \<le> currentPosition r \<and> currentPosition r \<le> 26"
    using firmware_currentPosition [of k ok t0 evs] by (simp add: Let_def)
  have c: "currentPosition (step (Edge pin t) s) = currentPosition s"
    by simp
  have d: "currentPosition (step (Poll now tn tp) s) \<in>
     {currentPosition s, currentPosition (handleNextButton tn s),
      currentPosition (handlePreviousButton tp s),
      currentPosition (handlePreviousButton tp (handleNextButton tn s))}"
    by (simp add: loop_currentPosition handleNextButton_currentPosition
        handlePreviousButton_currentPosition Let_def)
  have e: "1 \<le> currentPosition s \<and> currentPosition s \<le> 26 \<longrightarrow>
      currentPosition (handleNextButton tn s) =
        (if currentPosition s = 26 then 1 else currentPosition s + 1) \<and>
      currentPosition (handlePreviousButton tp s) =
        (if currentPosition s = 1 then 26 else currentPosition s - 1)"
    by (auto simp: handleNextButton_currentPosition handlePreviousButton_currentPosition)
  from a b c d e show ?thesis by blast
qed

theorem currentPosition_in_range_witness:
  "1 \<le> currentPosition (power_on\<lparr>currentPosition := 26\<rparr>) \<and>
   currentPosition (power_on\<lparr>currentPosition := 26\<rparr>) \<le> 26 \<and>
   currentPosition (handleNextButton 9000 (power_on\<lparr>currentPosition := 26\<rparr>)) = 1 \<and>
   currentPosition (handlePreviousButton 9000 (power_on\<lparr>currentPosition := 26\<rparr>)) = 25 \<and>
   1 \<le> currentPosition
     (run_state (firmware 0 True 5000 [Edge 13 6000, Poll 7000 8000 8000] power_on))"
  using currentPosition_in_range [where k = 0 and ok = True and ?t0.0 = 5000
      and evs = "[Edge 13 6000, Poll 7000 8000 8000]" and pin = 13 and t = 6000
      and s = "power_on\<lparr>currentPosition := 26\<rparr>" and now = 7000 and tn = 9000 and tp = 9000]
  by (simp add: Let_def)

text \<open>
  Claim C3. Whatever the rest of the state and the clock reading, the NEXT handler run with
  \<open>currentPosition = 26\<close> leaves 1, and the PREV handler run with \<open>currentPosition = 1\<close>
  leaves 26.
\<close>

theorem wraparound_boundaries:
  "currentPosition (handleNextButton tn (s\<lparr>currentPosition := 26\<rparr>)) = 1 \<and>
   currentPosition (handlePreviousButton tp (s\<lparr>currentPosition := 1\<rparr>)) = 26"
  by (simp add: handleNextButton_currentPosition handlePreviousButton_currentPosition)

subsection \<open>A full turn of the alphabet\<close>

lemma fold_handleNextButton:
  "1 \<le> currentPosition s \<Longrightarrow> currentPosition s \<le> 26 \<Longrightarrow>
   currentPosition (fold handleNextButton ts s) =
     (currentPosition s - 1 + int (length ts)) mod 26 + 1"
proof (induction ts arbitrary: s)
  case Nil
  then show ?case by simp
next
  case (Cons t ts)
  let ?s' = "handleNextButton t s"
  have c: "currentPosition ?s' = (if currentPosition s = 26 then 1 else currentPosition s + 1)"
    using Cons.prems by (auto simp: handleNextButton_currentPosition)
  then have r: "1 \<le> currentPosition ?s'" "currentPosition ?s' \<le> 26"
    using Cons.prems by auto
  have "currentPosition (fold handleNextButton (t # ts) s) =
     (currentPosition ?s' - 1 + int (length ts)) mod 26 + 1"
    using Cons.IH [OF r] by simp
  also have "\<dots> = (currentPosition s - 1 + int (length (t # ts))) mod 26 + 1"
  proof (cases "currentPosition s = 26")
    case True
    have "(25 + (1 + int (length ts))) mod 26 = (int (length ts) + 26) mod 26"
      by (simp add: add.commute)
    then show ?thesis using True c by simp
  next
    case False
    then show ?thesis using c by (simp add: algebra_simps)
  qed
  finally show ?case .
qed

lemma fold_handlePreviousButton:
  "1 \<le> currentPosition s \<Longrightarrow> currentPosition s \<le> 26 \<Longrightarrow>
   currentPosition (fold handlePreviousButton ts s) =
     (currentPosition s - 1 - int (length ts)) mod 26 + 1"
proof (induction ts arbitrary: s)
  case Nil
  then show ?case by simp
next
  case (Cons t ts)
  let ?s' = "handlePreviousButton t s"
  have c: "currentPosition ?s' = (if currentPosition s = 1 then 26 else currentPosition s - 1)"
    using Cons.prems by (auto simp: handlePreviousButton_currentPosition)
  then have r: "1 \<le> currentPosition ?s'" "currentPosition ?s' \<le> 26"
    using Cons.prems by auto
  have "currentPosition (fold handlePreviousButton (t # ts) s) =
     (currentPosition ?s' - 1 - int (length ts)) mod 26 + 1"
    using Cons.IH [OF r] by simp
  also have "\<dots> = (currentPosition s - 1 - int (length (t # ts))) mod 26 + 1"
  proof (cases "currentPosition s = 1")
    case True
    have "(25 - int (length ts)) mod 26 = (- 1 - int (length ts) + 26) mod 26"
      by (simp add: algebra_simps)
    also have "\<dots> = (- 1 - int (length ts)) mod 26"
      by (rule mod_add_self2)
    finally show ?thesis using True c by simp
  next
    case False
    then have "currentPosition ?s' - 1 - int (length ts) =
      currentPosition s - 1 - int (length (t # ts))"
      using c by simp
    then show ?thesis by (simp only:)
  qed
  finally show ?case .
qed

text \<open>
  Claim C9. From \<open>currentPosition = 1\<close>, 26 NEXT transitions in a row (with any clock
  readings \<open>ts\<close>) end at 1 again, and so do 26 PREV transitions in a row.
\<close>

theorem full_cycle_round_trip:
  "length ts = 26 \<Longrightarrow> currentPosition s = 1 \<Longrightarrow>
   currentPosition (fold handleNextButton ts s) = 1 \<and>
   currentPosition (fold handlePreviousButton ts s) = 1"
  by (simp add: fold_handleNextButton fold_handlePreviousButton)


theorem full_cycle_round_trip_witness:
  "length (replicate 26 (0::millis)) = 26 \<and> currentPosition power_on = 1 \<and>
   currentPosition (fold handleNextButton (replicate 26 0) power_on) = 1 \<and>
   currentPosition (fold handlePreviousButton (replicate 26 0) power_on) = 1"
  using full_cycle_round_trip [of "replicate 26 0" power_on]
  by (simp add: power_on_def)

subsection \<open>The pattern table and the renderer\<close>

lemma letter_cases:
  fixes letter :: int
  assumes "1 \<le> letter" "letter \<le> 26"
  obtains "letter = 1" | "letter = 2" | "letter = 3" | "letter = 4" | "letter = 5"
    | "letter = 6" | "letter = 7" | "letter = 8" | "letter = 9" | "letter = 10"
    | "letter = 11" | "letter = 12" | "letter = 13" | "letter = 14" | "letter = 15"
    | "letter = 16" | "letter = 17" | "letter = 18" | "letter = 19" | "letter = 20"
    | "letter = 21" | "letter = 22" | "letter = 23" | "letter = 24" | "letter = 25"
    | "letter = 26"
  using assms by atomize_elim arith

lemma drop_own_trace [simp]: "drop (length (trace s)) (trace s @ xs) = xs"
  by simp

lemma raised_by_display:
  assumes "1 \<le> n" "n \<le> 26"
  shows "raised_calls (effects_of (displayBraillePattern n) s) = spec_pattern_for n"
  by (rule letter_cases [OF assms];
      simp add: displayBraillePattern_def setDot_defs delay_def effects_of_def
        raised_calls_def spec_pattern_for_def; blast?)

text \<open>
  Claim C2. For every letter number from 1 to 26, and whatever the state before, the dots
  that \<open>displayBraillePattern\<close> writes to their up angle are exactly the dots the table
  of the specification lists for that letter (all 26 rows are compared).
\<close>

theorem displayBraillePattern_matches_table:
  "\<forall>n\<in>{1..26}. raised_calls (effects_of (displayBraillePattern n) s) = spec_pattern_for n"
  by (simp add: raised_by_display)

theorem displayBraillePattern_matches_table_witness:
  "(23::int) \<in> {1..26} \<and>
   raised_calls (effects_of (displayBraillePattern 23) power_on) = {Dot2, Dot4, Dot5, Dot6}"
  using displayBraillePattern_matches_table [of power_on, THEN bspec, of 23]
  by (simp add: spec_pattern_for_def)

lemma display_writes:
  assumes "1 \<le> n" "n \<le> 26"
  shows "set (servo_writes (effects_of (displayBraillePattern n) s)) =
     (\<lambda>d. (d, DOT_UP d)) ` spec_pattern_for n"
  by (rule letter_cases [OF assms];
      simp add: displayBraillePattern_def setDot_defs delay_def effects_of_def
        spec_pattern_for_def; blast?)

lemma clear_writes:
  "servo_writes (effects_of clearAllDots s) =
     map (\<lambda>d. (d, DOT_DOWN d)) [Dot1, Dot2, Dot3, Dot4, Dot5, Dot6]"
  by (simp add: clearAllDots_def setDot_defs delay_def effects_of_def)

lemma clear_servos:
  "servos (clearAllDots s) d = Some (DOT_DOWN d)"
  by (cases d; simp add: clearAllDots_def setDot_defs delay_def)

lemma display_servos:
  assumes "1 \<le> n" "n \<le> 26"
  shows "servos (displayBraillePattern n s) d =
     (if d \<in> spec_pattern_for n then Some (DOT_UP d) else servos s d)"
  by (rule letter_cases [OF assms]; cases d;
      simp add: displayBraillePattern_def setDot_defs delay_def spec_pattern_for_def)

lemma clear_then_display:
  assumes "1 \<le> n" "n \<le> 26"
  shows "servos (displayBraillePattern n (clearAllDots s)) d =
     Some (if d \<in> spec_pattern_for n then DOT_UP d else DOT_DOWN d)"
  by (simp add: display_servos [OF assms] clear_servos)

lemma handleNextButton_servos:
  assumes "1 \<le> currentPosition s" "currentPosition s \<le> 26"
  shows "servos (handleNextButton t s) d =
     Some (if d \<in> spec_pattern_for (currentPosition (handleNextButton t s))
           then DOT_UP d else DOT_DOWN d)"
  using assms
  by (simp add: handleNextButton_def Let_def TOTAL_LETTERS_def println_def clear_then_display)

lemma handlePreviousButton_servos:
  assumes "1 \<le> currentPosition s" "currentPosition s \<le> 26"
  shows "servos (handlePreviousButton t s) d =
     Some (if d \<in> spec_pattern_for (currentPosition (handlePreviousButton t s))
           then DOT_UP d else DOT_DOWN d)"
  using assms
  by (simp add: handlePreviousButton_def Let_def TOTAL_LETTERS_def println_def clear_then_display)

text \<open>
  Claim C8, as amended. For every letter number from 1 to 26, \<open>displayBraillePattern\<close>
  writes the up angle to exactly the dots of the letter's pattern and writes nothing to the
  other dots; \<open>clearAllDots\<close> writes the down angle to all six. So it is
  \<open>clearAllDots\<close> followed by \<open>displayBraillePattern\<close>, the order of both handlers,
  that leaves every servo at the angle of its membership in the pattern, whatever the
  state before: up for a member, down for the others.
\<close>

theorem render_needs_clear:
  "\<forall>n\<in>{1..26}.
     set (servo_writes (effects_of (displayBraillePattern n) s)) =
       (\<lambda>d. (d, DOT_UP d)) ` spec_pattern_for n \<and>
     servo_writes (effects_of clearAllDots s) =
       map (\<lambda>d. (d, DOT_DOWN d)) [Dot1, Dot2, Dot3, Dot4, Dot5, Dot6] \<and>
     servos (displayBraillePattern n (clearAllDots s)) d =
       Some (if d \<in> spec_pattern_for n then DOT_UP d else DOT_DOWN d) \<and>
     (currentPosition s = n \<longrightarrow>
        servos (handleNextButton t s) d =
          Some (if d \<in> spec_pattern_for (currentPosition (handleNextButton t s))
                then DOT_UP d else DOT_DOWN d) \<and>
        servos (handlePreviousButton t s) d =
          Some (if d \<in> spec_pattern_for (currentPosition (handlePreviousButton t s))
                then DOT_UP d else DOT_DOWN d))"
  by (simp add: display_writes clear_writes clear_then_display handleNextButton_servos
      handlePreviousButton_servos del: set_map list.map)

theorem render_needs_clear_witness:
  "(23::int) \<in> {1..26} \<and>
   set (servo_writes (effects_of (displayBraillePattern 23) power_on)) =
     {(Dot2, 20), (Dot4, 0), (Dot5, 150), (Dot6, 0)} \<and>
   servos (displayBraillePattern 23 (clearAllDots power_on)) Dot1 = Some 155 \<and>
   servos (displayBraillePattern 23 (clearAllDots power_on)) Dot2 = Some 20 \<and>
   currentPosition (power_on\<lparr>currentPosition := 23\<rparr>) = 23 \<and>
   servos (handleNextButton 0 (power_on\<lparr>currentPosition := 23\<rparr>)) Dot2 = Some 0"
  using render_needs_clear [of power_on Dot1 0, THEN bspec, of 23]
    render_needs_clear [of power_on Dot2 0, THEN bspec, of 23]
    render_needs_clear [of "power_on\<lparr>currentPosition := 23\<rparr>" Dot2 0, THEN bspec, of 23]
  by (simp add: spec_pattern_for_def handleNextButton_currentPosition)

text \<open>
  Claim C8 as stated fails: rendering letter 1 alone makes one servo write, not six, and
  rendering letter 1 straight after letter 2 leaves dot 2, which is not in the pattern of
  letter 1, at its up angle.
\<close>

theorem render_alone_counterexample:
  "servo_writes (effects_of (displayBraillePattern 1) power_on) = [(Dot1, 175)] \<and>
   servos (displayBraillePattern 1 (displayBraillePattern 2 (clearAllDots power_on))) Dot2 =
     Some (DOT_UP Dot2) \<and>
   Dot2 \<notin> spec_pattern_for 1"
  by (simp add: displayBraillePattern_def setDot_defs delay_def effects_of_def power_on_def
      clearAllDots_def spec_pattern_for_def)

subsection \<open>One poll of the main loop\<close>

lemma unset_isDisplayingPattern:
  "\<not> isDisplayingPattern s \<Longrightarrow> s\<lparr>isDisplayingPattern := False\<rparr> = s"
  by (cases s) simp

lemma next_transitions_append [simp]:
  "next_transitions (xs @ ys) = next_transitions xs @ next_transitions ys"
  by (induction xs rule: next_transitions.induct) simp_all

lemma prev_transitions_append [simp]:
  "prev_transitions (xs @ ys) = prev_transitions xs @ prev_transitions ys"
  by (induction xs rule: prev_transitions.induct) simp_all

lemma clearAllDots_transitions [simp]:
  "next_transitions (trace (clearAllDots s)) = next_transitions (trace s)"
  "prev_transitions (trace (clearAllDots s)) = prev_transitions (trace s)"
  by (simp_all add: clearAllDots_def setDot_defs delay_def)

lemma displayBraillePattern_transitions [simp]:
  "next_transitions (trace (displayBraillePattern n s)) = next_transitions (trace s)"
  "prev_transitions (trace (displayBraillePattern n s)) = prev_transitions (trace s)"
  by (simp_all add: displayBraillePattern_def setDot_defs delay_def)

lemma handleNextButton_transitions [simp]:
  "next_transitions (trace (handleNextButton t s)) =
     next_transitions (trace s) @ [currentPosition (handleNextButton t s)]"
  "prev_transitions (trace (handleNextButton t s)) = prev_transitions (trace s)"
  by (simp_all add: handleNextButton_def Let_def println_def)

lemma handlePreviousButton_transitions [simp]:
  "prev_transitions (trace (handlePreviousButton t s)) =
     prev_transitions (trace s) @ [currentPosition (handlePreviousButton t s)]"
  "next_transitions (trace (handlePreviousButton t s)) = next_transitions (trace s)"
  by (simp_all add: handlePreviousButton_def Let_def println_def)

lemma loop_ready:
  assumes "\<not> isDisplayingPattern s \<or> AUDIO_DISPLAY_DELAY \<le> now - lastActionTime s"
  shows "loop now tn tp s =
     (let s3 = s\<lparr>isDisplayingPattern := False, nextButtonPressed := False,
                  prevButtonPressed := False\<rparr>;
          s4 = (if nextButtonPressed s then handleNextButton tn s3 else s3);
          s5 = (if prevButtonPressed s then handlePreviousButton tp s4 else s4)
      in delay 10 s5)"
proof (cases "isDisplayingPattern s")
  case True
  then show ?thesis using assms by (simp add: loop_def Let_def)
next
  case False
  have "loop now tn tp s = loop now tn tp (s\<lparr>isDisplayingPattern := False\<rparr>)"
    by (simp only: unset_isDisplayingPattern [OF False])
  also have "\<dots> =
     (let s3 = s\<lparr>isDisplayingPattern := False, nextButtonPressed := False,
                  prevButtonPressed := False\<rparr>;
          s4 = (if nextButtonPressed s then handleNextButton tn s3 else s3);
          s5 = (if prevButtonPressed s then handlePreviousButton tp s4 else s4)
      in delay 10 s5)"
    by (simp add: loop_def Let_def)
  finally show ?thesis .
qed

text \<open>
  Claim C4. When both flags are pending at a poll in the READY state (the hold is over, or
  ends at this very hold check), \<open>loop()\<close> clears both flags and runs the NEXT handler and
  then the PREV handler on the state the NEXT handler left. From \<open>currentPosition = 5\<close>
  the poll ends at 5, having logged a NEXT transition to 6 and then a PREV transition to 5.
\<close>

theorem both_pending_same_poll:
  assumes "nextButtonPressed s" and "prevButtonPressed s"
    and "\<not> isDisplayingPattern s \<or> AUDIO_DISPLAY_DELAY \<le> now - lastActionTime s"
  shows "loop now tn tp s =
       delay 10 (handlePreviousButton tp (handleNextButton tn
         (s\<lparr>isDisplayingPattern := False, nextButtonPressed := False,
            prevButtonPressed := False\<rparr>))) \<and>
     (currentPosition s = 5 \<longrightarrow>
        currentPosition (loop now tn tp s) = 5 \<and>
        next_transitions (trace (loop now tn tp s)) = next_transitions (trace s) @ [6] \<and>
        prev_transitions (trace (loop now tn tp s)) = prev_transitions (trace s) @ [5])"
  using assms(1,2) loop_ready [OF assms(3), of tn tp]
  by (simp add: Let_def delay_def handleNextButton_currentPosition
      handlePreviousButton_currentPosition)

theorem both_pending_same_poll_witness:
  "nextButtonPressed (power_on\<lparr>nextButtonPressed := True, prevButtonPressed := True,
      currentPosition := 5\<rparr>) \<and>
   prevButtonPressed (power_on\<lparr>nextButtonPressed := True, prevButtonPressed := True,
      currentPosition := 5\<rparr>) \<and>
   \<not> isDisplayingPattern (power_on\<lparr>nextButtonPressed := True, prevButtonPressed := True,
      currentPosition := 5\<rparr>) \<and>
   currentPosition (loop 9000 10000 11000 (power_on\<lparr>nextButtonPressed := True,
      prevButtonPressed := True, currentPosition := 5\<rparr>)) = 5 \<and>
   next_transitions (trace (loop 9000 10000 11000 (power_on\<lparr>nextButtonPressed := True,
      prevButtonPressed := True, currentPosition := 5\<rparr>))) = [6] \<and>
   prev_transitions (trace (loop 9000 10000 11000 (power_on\<lparr>nextButtonPressed := True,
      prevButtonPressed := True, currentPosition := 5\<rparr>))) = [5]"
proof -
  let ?s = "power_on\<lparr>nextButtonPressed := True, prevButtonPressed := True,
      currentPosition := 5\<rparr>"
  have h: "nextButtonPressed ?s" "prevButtonPressed ?s"
    "\<not> isDisplayingPattern ?s \<or> AUDIO_DISPLAY_DELAY \<le> 9000 - lastActionTime ?s"
    by (simp_all add: power_on_def)
  have c: "currentPosition ?s = 5"
    by simp
  have t: "trace ?s = []" "\<not> isDisplayingPattern ?s"
    by (simp_all add: power_on_def)
  from both_pending_same_poll [OF h, of 10000 11000, THEN conjunct2, rule_format, OF c]
  show ?thesis using t by simp
qed

subsection \<open>The debounce filter\<close>

lemma next_edge_recorded_iff:
  "next_edge_recorded t s \<longleftrightarrow> 250 < t - nextLastInterruptTime s"
  by (simp add: next_edge_recorded_def nextButtonISR_def DEBOUNCE_DELAY_def)

lemma prev_edge_recorded_iff:
  "prev_edge_recorded t s \<longleftrightarrow> 250 < t - prevLastInterruptTime s"
  by (simp add: prev_edge_recorded_def prevButtonISR_def DEBOUNCE_DELAY_def)

lemma nextButtonISR_stamp:
  "nextLastInterruptTime (nextButtonISR t s) =
     (if 250 < t - nextLastInterruptTime s then t else nextLastInterruptTime s)"
  by (simp add: nextButtonISR_def DEBOUNCE_DELAY_def)

lemma prevButtonISR_stamp:
  "prevLastInterruptTime (prevButtonISR t s) =
     (if 250 < t - prevLastInterruptTime s then t else prevLastInterruptTime s)"
  by (simp add: prevButtonISR_def DEBOUNCE_DELAY_def)

lemma nextButtonISR_flag:
  "nextButtonPressed (nextButtonISR t s) \<longleftrightarrow>
     nextButtonPressed s \<or> 250 < t - nextLastInterruptTime s"
  by (simp add: nextButtonISR_def DEBOUNCE_DELAY_def)

lemma prevButtonISR_flag:
  "prevButtonPressed (prevButtonISR t s) \<longleftrightarrow>
     prevButtonPressed s \<or> 250 < t - prevLastInterruptTime s"
  by (simp add: prevButtonISR_def DEBOUNCE_DELAY_def)

lemma after_300:
  fixes d :: "32 word"
  assumes "\<not> 250 < d"
  shows "250 < d + 300"
proof -
  have "unat d \<le> 250"
    using assms by (simp add: word_less_nat_alt)
  then have "unat (d + 300) = unat d + 300"
    using unat_add_lem [of d 300] by simp
  then show ?thesis
    by (simp add: word_less_nat_alt)
qed

lemma second_edge_300:
  fixes t last :: "32 word"
  shows "250 < t + 300 - (if 250 < t - last then t else last)"
proof (cases "250 < t - last")
  case True
  then show ?thesis by simp
next
  case False
  have e: "t + 300 - last = (t - last) + 300"
    by simp
  have "250 < t + 300 - last"
    using after_300 [OF False] by (simp only: e)
  then show ?thesis using False by simp
qed

lemma two_edges_100_next:
  "next_recorded [t, t + 100] s \<le> 1"
  "250 < t - nextLastInterruptTime s \<Longrightarrow> next_recorded [t, t + 100] s = 1"
  by (simp_all add: next_edge_recorded_iff nextButtonISR_stamp)

lemma two_edges_300_next:
  "1 \<le> next_recorded [t, t + 300] s"
  "250 < t - nextLastInterruptTime s \<Longrightarrow> next_recorded [t, t + 300] s = 2"
  using second_edge_300 [of t "nextLastInterruptTime s"]
  by (simp_all add: next_edge_recorded_iff nextButtonISR_stamp)

lemma unwrapped_difference:
  fixes t last :: "32 word"
  assumes "last \<le> t"
  shows "250 < t - last \<longleftrightarrow> 250 < unat t - unat last"
proof -
  have "unat (t - last) = unat t - unat last"
    using assms by (simp add: unat_sub)
  then show ?thesis
    by (simp add: word_less_nat_alt)
qed

lemma two_edges_100_prev:
  "prev_recorded [t, t + 100] s \<le> 1"
  "250 < t - prevLastInterruptTime s \<Longrightarrow> prev_recorded [t, t + 100] s = 1"
  by (simp_all add: prev_edge_recorded_iff prevButtonISR_stamp)

lemma two_edges_300_prev:
  "1 \<le> prev_recorded [t, t + 300] s"
  "250 < t - prevLastInterruptTime s \<Longrightarrow> prev_recorded [t, t + 300] s = 2"
  using second_edge_300 [of t "prevLastInterruptTime s"]
  by (simp_all add: prev_edge_recorded_iff prevButtonISR_stamp)

text \<open>
  Claim C5. Each interrupt routine, on an edge at time \<open>t\<close>, sets its own pending flag and
  stores \<open>t\<close> as its own last accepted time exactly when \<open>t\<close> minus that last accepted
  time is more than 250 (a 32-bit unsigned difference, which is the plain difference as long
  as the clock has not wrapped between the two); otherwise it returns the state untouched.
  The two routines share no field. So when an edge at \<open>t\<close> is recorded, the edge 100 ms
  later is discarded (one recorded edge of the two) and the edge 300 ms later is recorded
  (two recorded edges). Without the premise, a pair 100 ms apart never records more than
  one edge and a pair 300 ms apart always records at least one.
\<close>

theorem debounce_filter:
  "nextButtonISR t s =
     (if 250 < t - nextLastInterruptTime s
      then s\<lparr>nextButtonPressed := True, nextLastInterruptTime := t\<rparr> else s) \<and>
   prevButtonISR t s =
     (if 250 < t - prevLastInterruptTime s
      then s\<lparr>prevButtonPressed := True, prevLastInterruptTime := t\<rparr> else s) \<and>
   (next_edge_recorded t s \<longleftrightarrow> 250 < t - nextLastInterruptTime s) \<and>
   (prev_edge_recorded t s \<longleftrightarrow> 250 < t - prevLastInterruptTime s) \<and>
   (nextLastInterruptTime s \<le> t \<longrightarrow>
      (250 < t - nextLastInterruptTime s \<longleftrightarrow> 250 < unat t - unat (nextLastInterruptTime s))) \<and>
   (prevLastInterruptTime s \<le> t \<longrightarrow>
      (250 < t - prevLastInterruptTime s \<longleftrightarrow> 250 < unat t - unat (prevLastInterruptTime s))) \<and>
   (next_edge_recorded t s \<longrightarrow>
      next_recorded [t, t + 100] s = 1 \<and> next_recorded [t, t + 300] s = 2) \<and>
   (prev_edge_recorded t s \<longrightarrow>
      prev_recorded [t, t + 100] s = 1 \<and> prev_recorded [t, t + 300] s = 2) \<and>
   next_recorded [t, t + 100] s \<le> 1 \<and> 1 \<le> next_recorded [t, t + 300] s \<and>
   prev_recorded [t, t + 100] s \<le> 1 \<and> 1 \<le> prev_recorded [t, t + 300] s"
proof -
  have isr: "nextButtonISR t s =
     (if 250 < t - nextLastInterruptTime s
      then s\<lparr>nextButtonPressed := True, nextLastInterruptTime := t\<rparr> else s)"
    "prevButtonISR t s =
     (if 250 < t - prevLastInterruptTime s
      then s\<lparr>prevButtonPressed := True, prevLastInterruptTime := t\<rparr> else s)"
    by (simp_all add: nextButtonISR_def prevButtonISR_def DEBOUNCE_DELAY_def)
  have clock: "nextLastInterruptTime s \<le> t \<longrightarrow>
      (250 < t - nextLastInterruptTime s \<longleftrightarrow> 250 < unat t - unat (nextLastInterruptTime s))"
    "prevLastInterruptTime s \<le> t \<longrightarrow>
      (250 < t - prevLastInterruptTime s \<longleftrightarrow> 250 < unat t - unat (prevLastInterruptTime s))"
    using unwrapped_difference by blast+
  have trains: "next_edge_recorded t s \<longrightarrow>
      next_recorded [t, t + 100] s = 1 \<and> next_recorded [t, t + 300] s = 2"
    "prev_edge_recorded t s \<longrightarrow>
      prev_recorded [t, t + 100] s = 1 \<and> prev_recorded [t, t + 300] s = 2"
    using two_edges_100_next(2) [of t s] two_edges_300_next(2) [of t s]
      two_edges_100_prev(2) [of t s] two_edges_300_prev(2) [of t s]
    by (simp_all only: next_edge_recorded_iff prev_edge_recorded_iff) blast+
  show ?thesis
    using isr clock trains next_edge_recorded_iff [of t s] prev_edge_recorded_iff [of t s]
      two_edges_100_next(1) [of t s] two_edges_300_next(1) [of t s]
      two_edges_100_prev(1) [of t s] two_edges_300_prev(1) [of t s]
    by blast
qed

theorem debounce_filter_witness:
  "next_edge_recorded 5000 (power_on\<lparr>nextLastInterruptTime := 1000\<rparr>) \<and>
   prev_edge_recorded 5000 (power_on\<lparr>nextLastInterruptTime := 1000\<rparr>) \<and>
   nextLastInterruptTime (power_on\<lparr>nextLastInterruptTime := 1000\<rparr>) \<le> 5000 \<and>
   prevLastInterruptTime (power_on\<lparr>nextLastInterruptTime := 1000\<rparr>) \<le> 5000 \<and>
   next_recorded [5000, 5000 + 100] (power_on\<lparr>nextLastInterruptTime := 1000\<rparr>) = 1 \<and>
   next_recorded [5000, 5000 + 300] (power_on\<lparr>nextLastInterruptTime := 1000\<rparr>) = 2 \<and>
   prev_recorded [5000, 5000 + 100] (power_on\<lparr>nextLastInterruptTime := 1000\<rparr>) = 1 \<and>
   prev_recorded [5000, 5000 + 300] (power_on\<lparr>nextLastInterruptTime := 1000\<rparr>) = 2"
proof -
  let ?s = "power_on\<lparr>nextLastInterruptTime := 1000\<rparr>"
  have n: "(250::32 word) < 5000 - nextLastInterruptTime ?s"
    by simp
  have p: "(250::32 word) < 5000 - prevLastInterruptTime ?s"
    by (simp add: power_on_def)
  have le: "nextLastInterruptTime ?s \<le> 5000" "prevLastInterruptTime ?s \<le> 5000"
    by (simp_all add: power_on_def)
  from debounce_filter [of 5000 ?s] n p le show ?thesis
    by blast
qed

subsection \<open>Pending presses and the display hold\<close>

lemma loop_next_transitions:
  "next_transitions (trace (loop now tn tp s)) =
     next_transitions (trace s) @
     (if (\<not> isDisplayingPattern s \<or> AUDIO_DISPLAY_DELAY \<le> now - lastActionTime s) \<and>
         nextButtonPressed s
      then [if currentPosition s + 1 > 26 then 1 else currentPosition s + 1] else [])"
  by (simp add: loop_def Let_def delay_def handleNextButton_currentPosition)

lemma loop_prev_transitions:
  "prev_transitions (trace (loop now tn tp s)) =
     prev_transitions (trace s) @
     (if (\<not> isDisplayingPattern s \<or> AUDIO_DISPLAY_DELAY \<le> now - lastActionTime s) \<and>
         prevButtonPressed s
      then [currentPosition (loop now tn tp s)] else [])"
  by (simp add: loop_def Let_def delay_def)

lemma loop_flags:
  "nextButtonPressed (loop now tn tp s) =
     (nextButtonPressed s \<and> isDisplayingPattern s \<and>
      \<not> AUDIO_DISPLAY_DELAY \<le> now - lastActionTime s)"
  "prevButtonPressed (loop now tn tp s) =
     (prevButtonPressed s \<and> isDisplayingPattern s \<and>
      \<not> AUDIO_DISPLAY_DELAY \<le> now - lastActionTime s)"
  by (auto simp: loop_def Let_def delay_def)

lemma fold_nextButtonISR_fields [simp]:
  "prevButtonPressed (fold nextButtonISR ts s) = prevButtonPressed s"
  "currentPosition (fold nextButtonISR ts s) = currentPosition s"
  "lastActionTime (fold nextButtonISR ts s) = lastActionTime s"
  "isDisplayingPattern (fold nextButtonISR ts s) = isDisplayingPattern s"
  "trace (fold nextButtonISR ts s) = trace s"
  by (induction ts arbitrary: s; simp)+

lemma fold_prevButtonISR_fields [simp]:
  "nextButtonPressed (fold prevButtonISR ts s) = nextButtonPressed s"
  "currentPosition (fold prevButtonISR ts s) = currentPosition s"
  "lastActionTime (fold prevButtonISR ts s) = lastActionTime s"
  "isDisplayingPattern (fold prevButtonISR ts s) = isDisplayingPattern s"
  "trace (fold prevButtonISR ts s) = trace s"
  by (induction ts arbitrary: s; simp)+

lemma fold_nextButtonISR_flag:
  "nextButtonPressed (fold nextButtonISR ts s) \<longleftrightarrow>
     nextButtonPressed s \<or> 0 < next_recorded ts s"
  by (induction ts arbitrary: s) (auto simp: nextButtonISR_flag next_edge_recorded_iff)

lemma fold_prevButtonISR_flag:
  "prevButtonPressed (fold prevButtonISR ts s) \<longleftrightarrow>
     prevButtonPressed s \<or> 0 < prev_recorded ts s"
  by (induction ts arbitrary: s) (auto simp: prevButtonISR_flag prev_edge_recorded_iff)

text \<open>
  Claim C10. One poll makes at most one NEXT and at most one PREV transition, whatever the
  state it finds. When two or more NEXT edges were recorded before a poll in the READY
  state, that poll makes exactly one NEXT transition and leaves the flag clear, and the
  poll after it (at any time) makes none: the presses were merged, not queued. The same
  holds for PREV.
\<close>

theorem presses_coalesce:
  "length (next_transitions (trace (loop now tn tp x))) \<le>
     length (next_transitions (trace x)) + 1 \<and>
   length (prev_transitions (trace (loop now tn tp x))) \<le>
     length (prev_transitions (trace x)) + 1 \<and>
   ((\<not> isDisplayingPattern s \<or> AUDIO_DISPLAY_DELAY \<le> now - lastActionTime s) \<and>
    2 \<le> next_recorded ts s \<longrightarrow>
      (let s1 = fold nextButtonISR ts s; s2 = loop now tn tp s1
       in length (next_transitions (trace s2)) = length (next_transitions (trace s)) + 1 \<and>
          \<not> nextButtonPressed s2 \<and>
          next_transitions (trace (loop now' tn' tp' s2)) = next_transitions (trace s2))) \<and>
   ((\<not> isDisplayingPattern s \<or> AUDIO_DISPLAY_DELAY \<le> now - lastActionTime s) \<and>
    2 \<le> prev_recorded ts s \<longrightarrow>
      (let s1 = fold prevButtonISR ts s; s2 = loop now tn tp s1
       in length (prev_transitions (trace s2)) = length (prev_transitions (trace s)) + 1 \<and>
          \<not> prevButtonPressed s2 \<and>
          prev_transitions (trace (loop now' tn' tp' s2)) = prev_transitions (trace s2)))"
proof -
  have bound: "length (next_transitions (trace (loop now tn tp x))) \<le>
       length (next_transitions (trace x)) + 1"
    "length (prev_transitions (trace (loop now tn tp x))) \<le>
       length (prev_transitions (trace x)) + 1"
    by (simp_all add: loop_next_transitions loop_prev_transitions)
  have nxt: "length (next_transitions (trace (loop now tn tp (fold nextButtonISR ts s)))) =
        length (next_transitions (trace s)) + 1 \<and>
      \<not> nextButtonPressed (loop now tn tp (fold nextButtonISR ts s)) \<and>
      next_transitions (trace (loop now' tn' tp' (loop now tn tp (fold nextButtonISR ts s)))) =
        next_transitions (trace (loop now tn tp (fold nextButtonISR ts s)))"
    if "\<not> isDisplayingPattern s \<or> AUDIO_DISPLAY_DELAY \<le> now - lastActionTime s"
      and "2 \<le> next_recorded ts s"
  proof -
    have f: "nextButtonPressed (fold nextButtonISR ts s)"
      using that(2) by (simp add: fold_nextButtonISR_flag)
    have a: "length (next_transitions (trace (loop now tn tp (fold nextButtonISR ts s)))) =
        length (next_transitions (trace s)) + 1"
      using that(1) f by (simp add: loop_next_transitions)
    have b: "\<not> nextButtonPressed (loop now tn tp (fold nextButtonISR ts s))"
      using that(1) by (auto simp: loop_flags)
    have c: "next_transitions (trace (loop now' tn' tp' (loop now tn tp (fold nextButtonISR ts s)))) =
        next_transitions (trace (loop now tn tp (fold nextButtonISR ts s)))"
      using b by (simp add: loop_next_transitions [of now' tn' tp'])
    from a b c show ?thesis by blast
  qed
  have prv: "length (prev_transitions (trace (loop now tn tp (fold prevButtonISR ts s)))) =
        length (prev_transitions (trace s)) + 1 \<and>
      \<not> prevButtonPressed (loop now tn tp (fold prevButtonISR ts s)) \<and>
      prev_transitions (trace (loop now' tn' tp' (loop now tn tp (fold prevButtonISR ts s)))) =
        prev_transitions (trace (loop now tn tp (fold prevButtonISR ts s)))"
    if "\<not> isDisplayingPattern s \<or> AUDIO_DISPLAY_DELAY \<le> now - lastActionTime s"
      and "2 \<le> prev_recorded ts s"
  proof -
    have f: "prevButtonPressed (fold prevButtonISR ts s)"
      using that(2) by (simp add: fold_prevButtonISR_flag)
    have a: "length (prev_transitions (trace (loop now tn tp (fold prevButtonISR ts s)))) =
        length (prev_transitions (trace s)) + 1"
      using that(1) f by (simp add: loop_prev_transitions)
    have b: "\<not> prevButtonPressed (loop now tn tp (fold prevButtonISR ts s))"
      using that(1) by (auto simp: loop_flags)
    have c: "prev_transitions (trace (loop now' tn' tp' (loop now tn tp (fold prevButtonISR ts s)))) =
        prev_transitions (trace (loop now tn tp (fold prevButtonISR ts s)))"
      using b by (simp add: loop_prev_transitions [of now' tn' tp'])
    from a b c show ?thesis by blast
  qed
  show ?thesis
    using bound nxt prv by (simp only: Let_def) blast
qed

theorem presses_coalesce_witness:
  "\<not> isDisplayingPattern power_on \<and>
   2 \<le> next_recorded [1000, 2000, 3000] power_on \<and>
   2 \<le> prev_recorded [1000, 2000, 3000] power_on \<and>
   length (next_transitions (trace
     (loop 3500 4500 4500 (fold nextButtonISR [1000, 2000, 3000] power_on)))) = 1 \<and>
   length (prev_transitions (trace
     (loop 3500 4500 4500 (fold prevButtonISR [1000, 2000, 3000] power_on)))) = 1"
proof -
  have r: "\<not> isDisplayingPattern power_on" "trace power_on = []"
    by (simp_all add: power_on_def)
  have n: "2 \<le> next_recorded [1000, 2000, 3000] power_on"
    by (simp add: next_edge_recorded_iff nextButtonISR_stamp power_on_def)
  have p: "2 \<le> prev_recorded [1000, 2000, 3000] power_on"
    by (simp add: prev_edge_recorded_iff prevButtonISR_stamp power_on_def)
  from presses_coalesce [of 3500 4500 4500 power_on power_on "[1000, 2000, 3000]"] r n p
  show ?thesis by (simp add: Let_def)
qed

lemma loop_in_hold:
  "isDisplayingPattern s \<Longrightarrow> now - lastActionTime s < AUDIO_DISPLAY_DELAY \<Longrightarrow>
   loop now tn tp s = delay 10 s"
  by (simp add: loop_def Let_def not_le)

lemma step_in_hold:
  assumes "isDisplayingPattern s" "in_hold (lastActionTime s) e"
  shows "isDisplayingPattern (step e s) \<and> lastActionTime (step e s) = lastActionTime s \<and>
     currentPosition (step e s) = currentPosition s \<and> servos (step e s) = servos s \<and>
     next_transitions (trace (step e s)) = next_transitions (trace s) \<and>
     prev_transitions (trace (step e s)) = prev_transitions (trace s) \<and>
     (nextButtonPressed s \<longrightarrow> nextButtonPressed (step e s)) \<and>
     (prevButtonPressed s \<longrightarrow> prevButtonPressed (step e s))"
proof (cases e)
  case (Edge pin t)
  then show ?thesis using assms by (simp add: falling_edge_keeps_flags)
next
  case (Poll now tn tp)
  then have "step e s = delay 10 s"
    using assms by (simp add: loop_in_hold)
  then show ?thesis using assms by (simp add: delay_def)
qed

lemma hold_keeps:
  assumes "isDisplayingPattern s" "\<forall>e\<in>set evs. in_hold (lastActionTime s) e"
  shows "isDisplayingPattern (fold step evs s) \<and>
     lastActionTime (fold step evs s) = lastActionTime s \<and>
     currentPosition (fold step evs s) = currentPosition s \<and>
     servos (fold step evs s) = servos s \<and>
     next_transitions (trace (fold step evs s)) = next_transitions (trace s) \<and>
     prev_transitions (trace (fold step evs s)) = prev_transitions (trace s) \<and>
     (nextButtonPressed s \<longrightarrow> nextButtonPressed (fold step evs s)) \<and>
     (prevButtonPressed s \<longrightarrow> prevButtonPressed (fold step evs s))"
  using assms
proof (induction evs arbitrary: s)
  case Nil
  then show ?case by simp
next
  case (Cons e evs)
  have one: "isDisplayingPattern (step e s) \<and> lastActionTime (step e s) = lastActionTime s \<and>
     currentPosition (step e s) = currentPosition s \<and> servos (step e s) = servos s \<and>
     next_transitions (trace (step e s)) = next_transitions (trace s) \<and>
     prev_transitions (trace (step e s)) = prev_transitions (trace s) \<and>
     (nextButtonPressed s \<longrightarrow> nextButtonPressed (step e s)) \<and>
     (prevButtonPressed s \<longrightarrow> prevButtonPressed (step e s))"
    using Cons.prems by (intro step_in_hold) simp_all
  then have "\<forall>x\<in>set evs. in_hold (lastActionTime (step e s)) x"
    using Cons.prems(2) by simp
  with one have "isDisplayingPattern (fold step evs (step e s)) \<and>
     lastActionTime (fold step evs (step e s)) = lastActionTime (step e s) \<and>
     currentPosition (fold step evs (step e s)) = currentPosition (step e s) \<and>
     servos (fold step evs (step e s)) = servos (step e s) \<and>
     next_transitions (trace (fold step evs (step e s))) = next_transitions (trace (step e s)) \<and>
     prev_transitions (trace (fold step evs (step e s))) = prev_transitions (trace (step e s)) \<and>
     (nextButtonPressed (step e s) \<longrightarrow> nextButtonPressed (fold step evs (step e s))) \<and>
     (prevButtonPressed (step e s) \<longrightarrow> prevButtonPressed (fold step evs (step e s)))"
    by (intro Cons.IH) simp_all
  with one show ?case by simp
qed

lemma audio_plays_append [simp]:
  "audio_plays (xs @ ys) = audio_plays xs @ audio_plays ys"
  by (induction xs rule: audio_plays.induct) simp_all

lemma clearAllDots_plays [simp]:
  "audio_plays (trace (clearAllDots s)) = audio_plays (trace s)"
  by (simp add: clearAllDots_def setDot_defs delay_def)

lemma displayBraillePattern_plays [simp]:
  "audio_plays (trace (displayBraillePattern n s)) = audio_plays (trace s)"
  by (simp add: displayBraillePattern_def setDot_defs delay_def)

lemma handleNextButton_plays [simp]:
  "audio_plays (trace (handleNextButton t s)) =
     audio_plays (trace s) @ [currentPosition (handleNextButton t s)]"
  by (simp add: handleNextButton_def Let_def println_def)

lemma handlePreviousButton_plays [simp]:
  "audio_plays (trace (handlePreviousButton t s)) =
     audio_plays (trace s) @ [currentPosition (handlePreviousButton t s)]"
  by (simp add: handlePreviousButton_def Let_def println_def)

lemma loop_plays:
  assumes "\<not> isDisplayingPattern s \<or> AUDIO_DISPLAY_DELAY \<le> now - lastActionTime s"
  shows "audio_plays (trace (loop now tn tp s)) =
     audio_plays (trace s) @
     (if nextButtonPressed s
      then [if currentPosition s + 1 > 26 then 1 else currentPosition s + 1] else []) @
     (if prevButtonPressed s then [currentPosition (loop now tn tp s)] else [])"
  by (simp add: loop_ready [OF assms] Let_def delay_def handleNextButton_currentPosition)

lemma loop_restarts_hold:
  assumes "\<not> isDisplayingPattern s \<or> AUDIO_DISPLAY_DELAY \<le> now - lastActionTime s"
    and "nextButtonPressed s \<or> prevButtonPressed s"
  shows "isDisplayingPattern (loop now tn tp s)"
    and "lastActionTime (loop now tn tp s) = (if prevButtonPressed s then tp else tn)"
  using assms(2) by (auto simp: loop_ready [OF assms(1)] Let_def delay_def)

lemma loop_servos:
  assumes "\<not> isDisplayingPattern s \<or> AUDIO_DISPLAY_DELAY \<le> now - lastActionTime s"
    and "nextButtonPressed s \<or> prevButtonPressed s"
    and "1 \<le> currentPosition s" "currentPosition s \<le> 26"
  shows "servos (loop now tn tp s) d =
     Some (if d \<in> spec_pattern_for (currentPosition (loop now tn tp s))
           then DOT_UP d else DOT_DOWN d)"
proof -
  let ?s3 = "s\<lparr>isDisplayingPattern := False, nextButtonPressed := False,
    prevButtonPressed := False\<rparr>"
  have r3: "1 \<le> currentPosition ?s3" "currentPosition ?s3 \<le> 26"
    using assms(3,4) by simp_all
  have r4: "1 \<le> currentPosition (handleNextButton tn ?s3)"
    "currentPosition (handleNextButton tn ?s3) \<le> 26"
    using assms(3,4) by (simp_all add: handleNextButton_currentPosition)
  show ?thesis
  proof (cases "nextButtonPressed s")
    case True
    show ?thesis
    proof (cases "prevButtonPressed s")
      case True
      with \<open>nextButtonPressed s\<close>
      have "loop now tn tp s = delay 10 (handlePreviousButton tp (handleNextButton tn ?s3))"
        by (simp add: loop_ready [OF assms(1)] Let_def)
      then show ?thesis
        using handlePreviousButton_servos [OF r4, of tp d] by (simp add: delay_def)
    next
      case False
      with \<open>nextButtonPressed s\<close>
      have "loop now tn tp s = delay 10 (handleNextButton tn ?s3)"
        by (simp add: loop_ready [OF assms(1)] Let_def)
      then show ?thesis
        using handleNextButton_servos [OF r3, of tn d] by (simp add: delay_def)
    qed
  next
    case False
    with assms(2) have "prevButtonPressed s"
      by simp
    with False have "loop now tn tp s = delay 10 (handlePreviousButton tp ?s3)"
      by (simp add: loop_ready [OF assms(1)] Let_def)
    then show ?thesis
      using handlePreviousButton_servos [OF r3, of tp d] by (simp add: delay_def)
  qed
qed

lemma hold_keeps_plays:
  assumes "isDisplayingPattern s" "\<forall>e\<in>set evs. in_hold (lastActionTime s) e"
  shows "audio_plays (trace (fold step evs s)) = audio_plays (trace s)"
  using assms
proof (induction evs arbitrary: s)
  case Nil
  then show ?case by simp
next
  case (Cons e evs)
  have keep: "isDisplayingPattern (step e s)" "lastActionTime (step e s) = lastActionTime s"
    using step_in_hold [of s e] Cons.prems by simp_all
  have one: "audio_plays (trace (step e s)) = audio_plays (trace s)"
  proof (cases e)
    case (Edge pin t)
    then show ?thesis by simp
  next
    case (Poll now tn tp)
    then have "step e s = delay 10 s"
      using Cons.prems by (simp add: loop_in_hold)
    then show ?thesis by (simp add: delay_def)
  qed
  have "\<forall>x\<in>set evs. in_hold (lastActionTime (step e s)) x"
    using Cons.prems(2) keep(2) by simp
  then have "audio_plays (trace (fold step evs (step e s))) = audio_plays (trace (step e s))"
    using keep(1) by (intro Cons.IH)
  with one show ?case by simp
qed

text \<open>
  What a poll in the READY state does with a pending NEXT press, and with a pending PREV
  press: the index moves, the track of the new letter is played, the servos show its
  pattern, and the hold starts again at the clock reading of the last handler that ran.
\<close>

lemma ready_poll_next:
  assumes "\<not> isDisplayingPattern x \<or> AUDIO_DISPLAY_DELAY \<le> now - lastActionTime x"
    and "nextButtonPressed x"
  shows "next_transitions (trace (loop now tn tp x)) = next_transitions (trace x) @
       [if currentPosition x + 1 > 26 then 1 else currentPosition x + 1]"
    and "\<not> nextButtonPressed (loop now tn tp x)"
    and "currentPosition (loop now tn tp x) =
       (let c1 = (if currentPosition x + 1 > 26 then 1 else currentPosition x + 1)
        in if prevButtonPressed x then (if c1 - 1 < 1 then 26 else c1 - 1) else c1)"
    and "audio_plays (trace (loop now tn tp x)) = audio_plays (trace x) @
       (if currentPosition x + 1 > 26 then 1 else currentPosition x + 1) #
       (if prevButtonPressed x then [currentPosition (loop now tn tp x)] else [])"
    and "isDisplayingPattern (loop now tn tp x)"
    and "lastActionTime (loop now tn tp x) = (if prevButtonPressed x then tp else tn)"
proof -
  show "next_transitions (trace (loop now tn tp x)) = next_transitions (trace x) @
       [if currentPosition x + 1 > 26 then 1 else currentPosition x + 1]"
    using assms by (simp add: loop_next_transitions)
  show "\<not> nextButtonPressed (loop now tn tp x)"
    using assms by (auto simp: loop_flags)
  show "currentPosition (loop now tn tp x) =
       (let c1 = (if currentPosition x + 1 > 26 then 1 else currentPosition x + 1)
        in if prevButtonPressed x then (if c1 - 1 < 1 then 26 else c1 - 1) else c1)"
    using assms by (auto simp: loop_currentPosition Let_def)
  show "audio_plays (trace (loop now tn tp x)) = audio_plays (trace x) @
       (if currentPosition x + 1 > 26 then 1 else currentPosition x + 1) #
       (if prevButtonPressed x then [currentPosition (loop now tn tp x)] else [])"
    using assms(2) by (simp add: loop_plays [OF assms(1)])
  show "isDisplayingPattern (loop now tn tp x)"
    using assms by (intro loop_restarts_hold) simp_all
  show "lastActionTime (loop now tn tp x) = (if prevButtonPressed x then tp else tn)"
    using assms by (intro loop_restarts_hold) simp_all
qed

lemma ready_poll_prev:
  assumes "\<not> isDisplayingPattern x \<or> AUDIO_DISPLAY_DELAY \<le> now - lastActionTime x"
    and "prevButtonPressed x"
  shows "prev_transitions (trace (loop now tn tp x)) = prev_transitions (trace x) @
       [currentPosition (loop now tn tp x)]"
    and "\<not> prevButtonPressed (loop now tn tp x)"
    and "currentPosition (loop now tn tp x) =
       (let c0 = (if nextButtonPressed x
                  then (if currentPosition x + 1 > 26 then 1 else currentPosition x + 1)
                  else currentPosition x)
        in if c0 - 1 < 1 then 26 else c0 - 1)"
    and "audio_plays (trace (loop now tn tp x)) = audio_plays (trace x) @
       (if nextButtonPressed x
        then [if currentPosition x + 1 > 26 then 1 else currentPosition x + 1] else []) @
       [currentPosition (loop now tn tp x)]"
    and "isDisplayingPattern (loop now tn tp x)"
    and "lastActionTime (loop now tn tp x) = tp"
proof -
  show "prev_transitions (trace (loop now tn tp x)) = prev_transitions (trace x) @
       [currentPosition (loop now tn tp x)]"
    using assms by (simp add: loop_prev_transitions)
  show "\<not> prevButtonPressed (loop now tn tp x)"
    using assms by (auto simp: loop_flags)
  show "currentPosition (loop now tn tp x) =
       (let c0 = (if nextButtonPressed x
                  then (if currentPosition x + 1 > 26 then 1 else currentPosition x + 1)
                  else currentPosition x)
        in if c0 - 1 < 1 then 26 else c0 - 1)"
    using assms by (auto simp: loop_currentPosition Let_def)
  show "audio_plays (trace (loop now tn tp x)) = audio_plays (trace x) @
       (if nextButtonPressed x
        then [if currentPosition x + 1 > 26 then 1 else currentPosition x + 1] else []) @
       [currentPosition (loop now tn tp x)]"
    using assms(2) by (simp add: loop_plays [OF assms(1)])
  show "isDisplayingPattern (loop now tn tp x)"
    using assms by (intro loop_restarts_hold) simp_all
  show "lastActionTime (loop now tn tp x) = tp"
    using assms loop_restarts_hold(2) [of x now tn tp] by simp
qed



text \<open>
  Claim C6. Let the pattern be on display and an edge be recorded by the debounce filter.
  Through every sequence of events of the hold (edges on any pin, and polls whose hold check
  finds less than 2000 ms elapsed), and after each prefix of it, the flag of that button is
  still set, no transition of that button has been made and the letter index has not moved.
  The first poll whose hold check finds 2000 ms or more elapsed processes the press: it
  clears the flag, logs the transition, moves the index (NEXT to the successor of the letter
  on display; PREV to the predecessor, taken after the NEXT transition when a NEXT press is
  pending too), plays the track of each letter it moves to, leaves the servos on the
  pattern of the final letter, and starts a new hold at the clock reading of the last
  handler that ran.
\<close>

theorem deferred_press:
  assumes "isDisplayingPattern s"
    and "\<forall>e\<in>set evs. in_hold (lastActionTime s) e"
    and "AUDIO_DISPLAY_DELAY \<le> now - lastActionTime s"
  shows "(next_edge_recorded t s \<longrightarrow>
       (let s1 = fold step evs (nextButtonISR t s); s2 = loop now tn tp s1;
            c1 = (if currentPosition s + 1 > 26 then 1 else currentPosition s + 1)
        in (\<forall>n. nextButtonPressed (fold step (take n evs) (nextButtonISR t s)) \<and>
                 next_transitions (trace (fold step (take n evs) (nextButtonISR t s))) =
                   next_transitions (trace s) \<and>
                 currentPosition (fold step (take n evs) (nextButtonISR t s)) =
                   currentPosition s) \<and>
            next_transitions (trace s2) = next_transitions (trace s) @ [c1] \<and>
            \<not> nextButtonPressed s2 \<and>
            currentPosition s2 =
              (if prevButtonPressed s1 then (if c1 - 1 < 1 then 26 else c1 - 1) else c1) \<and>
            audio_plays (trace s2) = audio_plays (trace s) @
              c1 # (if prevButtonPressed s1 then [currentPosition s2] else []) \<and>
            isDisplayingPattern s2 \<and>
            lastActionTime s2 = (if prevButtonPressed s1 then tp else tn) \<and>
            (1 \<le> currentPosition s \<and> currentPosition s \<le> 26 \<longrightarrow>
               (\<forall>d. servos s2 d =
                  Some (if d \<in> spec_pattern_for (currentPosition s2)
                        then DOT_UP d else DOT_DOWN d))))) \<and>
     (prev_edge_recorded t s \<longrightarrow>
       (let s1 = fold step evs (prevButtonISR t s); s2 = loop now tn tp s1;
            c0 = (if nextButtonPressed s1
                  then (if currentPosition s + 1 > 26 then 1 else currentPosition s + 1)
                  else currentPosition s)
        in (\<forall>n. prevButtonPressed (fold step (take n evs) (prevButtonISR t s)) \<and>
                 prev_transitions (trace (fold step (take n evs) (prevButtonISR t s))) =
                   prev_transitions (trace s) \<and>
                 currentPosition (fold step (take n evs) (prevButtonISR t s)) =
                   currentPosition s) \<and>
            prev_transitions (trace s2) = prev_transitions (trace s) @ [currentPosition s2] \<and>
            \<not> prevButtonPressed s2 \<and>
            currentPosition s2 = (if c0 - 1 < 1 then 26 else c0 - 1) \<and>
            audio_plays (trace s2) = audio_plays (trace s) @
              (if nextButtonPressed s1 then [c0] else []) @ [currentPosition s2] \<and>
            isDisplayingPattern s2 \<and>
            lastActionTime s2 = tp \<and>
            (1 \<le> currentPosition s \<and> currentPosition s \<le> 26 \<longrightarrow>
               (\<forall>d. servos s2 d =
                  Some (if d \<in> spec_pattern_for (currentPosition s2)
                        then DOT_UP d else DOT_DOWN d)))))"
proof -
  have part: "\<forall>e\<in>set (take n evs). in_hold (lastActionTime s) e" for n
    using assms(2) by (auto dest: in_set_takeD)
  have nxt: "(\<forall>n. nextButtonPressed (fold step (take n evs) (nextButtonISR t s)) \<and>
         next_transitions (trace (fold step (take n evs) (nextButtonISR t s))) =
           next_transitions (trace s) \<and>
         currentPosition (fold step (take n evs) (nextButtonISR t s)) = currentPosition s) \<and>
      next_transitions (trace (loop now tn tp (fold step evs (nextButtonISR t s)))) =
        next_transitions (trace s) @
        [if currentPosition s + 1 > 26 then 1 else currentPosition s + 1] \<and>
      \<not> nextButtonPressed (loop now tn tp (fold step evs (nextButtonISR t s))) \<and>
      currentPosition (loop now tn tp (fold step evs (nextButtonISR t s))) =
        (if prevButtonPressed (fold step evs (nextButtonISR t s))
         then (if (if currentPosition s + 1 > 26 then 1 else currentPosition s + 1) - 1 < 1
               then 26
               else (if currentPosition s + 1 > 26 then 1 else currentPosition s + 1) - 1)
         else (if currentPosition s + 1 > 26 then 1 else currentPosition s + 1)) \<and>
      audio_plays (trace (loop now tn tp (fold step evs (nextButtonISR t s)))) =
        audio_plays (trace s) @
        (if currentPosition s + 1 > 26 then 1 else currentPosition s + 1) #
        (if prevButtonPressed (fold step evs (nextButtonISR t s))
         then [currentPosition (loop now tn tp (fold step evs (nextButtonISR t s)))] else []) \<and>
      isDisplayingPattern (loop now tn tp (fold step evs (nextButtonISR t s))) \<and>
      lastActionTime (loop now tn tp (fold step evs (nextButtonISR t s))) =
        (if prevButtonPressed (fold step evs (nextButtonISR t s)) then tp else tn) \<and>
      (1 \<le> currentPosition s \<and> currentPosition s \<le> 26 \<longrightarrow>
         (\<forall>d. servos (loop now tn tp (fold step evs (nextButtonISR t s))) d =
            Some (if d \<in> spec_pattern_for
                         (currentPosition (loop now tn tp (fold step evs (nextButtonISR t s))))
                  then DOT_UP d else DOT_DOWN d)))"
    if rec: "next_edge_recorded t s"
  proof -
    let ?p = "nextButtonISR t s"
    let ?x = "fold step evs ?p"
    have p: "isDisplayingPattern ?p" "lastActionTime ?p = lastActionTime s"
      "nextButtonPressed ?p"
      using assms(1) rec by (simp_all add: nextButtonISR_flag next_edge_recorded_iff)
    have during: "nextButtonPressed (fold step (take n evs) ?p) \<and>
        next_transitions (trace (fold step (take n evs) ?p)) = next_transitions (trace s) \<and>
        currentPosition (fold step (take n evs) ?p) = currentPosition s" for n
      using hold_keeps [of ?p "take n evs"] p part [of n] by simp
    have final: "lastActionTime ?x = lastActionTime s"
      "currentPosition ?x = currentPosition s"
      "next_transitions (trace ?x) = next_transitions (trace s)"
      "nextButtonPressed ?x"
      using hold_keeps [of ?p evs] p assms(2) by simp_all
    have plays: "audio_plays (trace ?x) = audio_plays (trace s)"
      using hold_keeps_plays [of ?p evs] p assms(2) by simp
    have ready: "\<not> isDisplayingPattern ?x \<or> AUDIO_DISPLAY_DELAY \<le> now - lastActionTime ?x"
      using assms(3) final(1) by simp
    note poll = ready_poll_next [OF ready final(4), of tn tp]
    have a: "next_transitions (trace (loop now tn tp ?x)) = next_transitions (trace s) @
        [if currentPosition s + 1 > 26 then 1 else currentPosition s + 1]"
      using poll(1) by (simp add: final)
    have b: "\<not> nextButtonPressed (loop now tn tp ?x)"
      by (rule poll(2))
    have c: "currentPosition (loop now tn tp ?x) =
        (if prevButtonPressed ?x
         then (if (if currentPosition s + 1 > 26 then 1 else currentPosition s + 1) - 1 < 1
               then 26
               else (if currentPosition s + 1 > 26 then 1 else currentPosition s + 1) - 1)
         else (if currentPosition s + 1 > 26 then 1 else currentPosition s + 1))"
      using poll(3) by (simp add: final Let_def)
    have d: "audio_plays (trace (loop now tn tp ?x)) = audio_plays (trace s) @
        (if currentPosition s + 1 > 26 then 1 else currentPosition s + 1) #
        (if prevButtonPressed ?x then [currentPosition (loop now tn tp ?x)] else [])"
      using poll(4) by (simp add: final plays)
    have e: "isDisplayingPattern (loop now tn tp ?x)"
      by (rule poll(5))
    have f: "lastActionTime (loop now tn tp ?x) = (if prevButtonPressed ?x then tp else tn)"
      by (rule poll(6))
    have g: "servos (loop now tn tp ?x) d =
        Some (if d \<in> spec_pattern_for (currentPosition (loop now tn tp ?x))
              then DOT_UP d else DOT_DOWN d)"
      if "1 \<le> currentPosition s \<and> currentPosition s \<le> 26" for d
      using loop_servos [OF ready, of tn tp d] final(2,4) that by simp
    from during a b c d e f g show ?thesis by blast
  qed
  have prv: "(\<forall>n. prevButtonPressed (fold step (take n evs) (prevButtonISR t s)) \<and>
         prev_transitions (trace (fold step (take n evs) (prevButtonISR t s))) =
           prev_transitions (trace s) \<and>
         currentPosition (fold step (take n evs) (prevButtonISR t s)) = currentPosition s) \<and>
      prev_transitions (trace (loop now tn tp (fold step evs (prevButtonISR t s)))) =
        prev_transitions (trace s) @
        [currentPosition (loop now tn tp (fold step evs (prevButtonISR t s)))] \<and>
      \<not> prevButtonPressed (loop now tn tp (fold step evs (prevButtonISR t s))) \<and>
      currentPosition (loop now tn tp (fold step evs (prevButtonISR t s))) =
        (if (if nextButtonPressed (fold step evs (prevButtonISR t s))
             then (if currentPosition s + 1 > 26 then 1 else currentPosition s + 1)
             else currentPosition s) - 1 < 1
         then 26
         else (if nextButtonPressed (fold step evs (prevButtonISR t s))
               then (if currentPosition s + 1 > 26 then 1 else currentPosition s + 1)
               else currentPosition s) - 1) \<and>
      audio_plays (trace (loop now tn tp (fold step evs (prevButtonISR t s)))) =
        audio_plays (trace s) @
        (if nextButtonPressed (fold step evs (prevButtonISR t s))
         then [if nextButtonPressed (fold step evs (prevButtonISR t s))
               then (if currentPosition s + 1 > 26 then 1 else currentPosition s + 1)
               else currentPosition s]
         else []) @
        [currentPosition (loop now tn tp (fold step evs (prevButtonISR t s)))] \<and>
      isDisplayingPattern (loop now tn tp (fold step evs (prevButtonISR t s))) \<and>
      lastActionTime (loop now tn tp (fold step evs (prevButtonISR t s))) = tp \<and>
      (1 \<le> currentPosition s \<and> currentPosition s \<le> 26 \<longrightarrow>
         (\<forall>d. servos (loop now tn tp (fold step evs (prevButtonISR t s))) d =
            Some (if d \<in> spec_pattern_for
                         (currentPosition (loop now tn tp (fold step evs (prevButtonISR t s))))
                  then DOT_UP d else DOT_DOWN d)))"
    if rec: "prev_edge_recorded t s"
  proof -
    let ?p = "prevButtonISR t s"
    let ?x = "fold step evs ?p"
    have p: "isDisplayingPattern ?p" "lastActionTime ?p = lastActionTime s"
      "prevButtonPressed ?p"
      using assms(1) rec by (simp_all add: prevButtonISR_flag prev_edge_recorded_iff)
    have during: "prevButtonPressed (fold step (take n evs) ?p) \<and>
        prev_transitions (trace (fold step (take n evs) ?p)) = prev_transitions (trace s) \<and>
        currentPosition (fold step (take n evs) ?p) = currentPosition s" for n
      using hold_keeps [of ?p "take n evs"] p part [of n] by simp
    have final: "lastActionTime ?x = lastActionTime s"
      "currentPosition ?x = currentPosition s"
      "prev_transitions (trace ?x) = prev_transitions (trace s)"
      "prevButtonPressed ?x"
      using hold_keeps [of ?p evs] p assms(2) by simp_all
    have plays: "audio_plays (trace ?x) = audio_plays (trace s)"
      using hold_keeps_plays [of ?p evs] p assms(2) by simp
    have ready: "\<not> isDisplayingPattern ?x \<or> AUDIO_DISPLAY_DELAY \<le> now - lastActionTime ?x"
      using assms(3) final(1) by simp
    note poll = ready_poll_prev [OF ready final(4), of tn tp]
    have a: "prev_transitions (trace (loop now tn tp ?x)) = prev_transitions (trace s) @
        [currentPosition (loop now tn tp ?x)]"
      using poll(1) by (simp add: final)
    have b: "\<not> prevButtonPressed (loop now tn tp ?x)"
      by (rule poll(2))
    have c: "currentPosition (loop now tn tp ?x) =
        (if (if nextButtonPressed ?x
             then (if currentPosition s + 1 > 26 then 1 else currentPosition s + 1)
             else currentPosition s) - 1 < 1
         then 26
         else (if nextButtonPressed ?x
               then (if currentPosition s + 1 > 26 then 1 else currentPosition s + 1)
               else currentPosition s) - 1)"
      using poll(3) by (simp add: final Let_def)
    have d: "audio_plays (trace (loop now tn tp ?x)) = audio_plays (trace s) @
        (if nextButtonPressed ?x
         then [if nextButtonPressed ?x
               then (if currentPosition s + 1 > 26 then 1 else currentPosition s + 1)
               else currentPosition s]
         else []) @
        [currentPosition (loop now tn tp ?x)]"
      using poll(4) by (simp add: final plays)
    have e: "isDisplayingPattern (loop now tn tp ?x)"
      by (rule poll(5))
    have f: "lastActionTime (loop now tn tp ?x) = tp"
      by (rule poll(6))
    have g: "servos (loop now tn tp ?x) d =
        Some (if d \<in> spec_pattern_for (currentPosition (loop now tn tp ?x))
              then DOT_UP d else DOT_DOWN d)"
      if "1 \<le> currentPosition s \<and> currentPosition s \<le> 26" for d
      using loop_servos [OF ready, of tn tp d] final(2,4) that by simp
    from during a b c d e f g show ?thesis by blast
  qed
  show ?thesis
    using nxt prv by (simp only: Let_def) blast
qed

lemma setup_completed:
  "isDisplayingPattern (run_state (setup_sketch k True t0 power_on))"
  "lastActionTime (run_state (setup_sketch k True t0 power_on)) = t0"
  "nextLastInterruptTime (run_state (setup_sketch k True t0 power_on)) = 0"
  "prevLastInterruptTime (run_state (setup_sketch k True t0 power_on)) = 0"
  "next_transitions (trace (run_state (setup_sketch k True t0 power_on))) = []"
  "prev_transitions (trace (run_state (setup_sketch k True t0 power_on))) = []"
  "audio_plays (trace (run_state (setup_sketch k True t0 power_on))) = [27, 1]"
  "\<not> nextButtonPressed (run_state (setup_sketch k True t0 power_on))"
  "\<not> prevButtonPressed (run_state (setup_sketch k True t0 power_on))"
  "interrupts (run_state (setup_sketch k True t0 power_on)) =
     [(BUTTON_PREV, PrevButtonISR), (BUTTON_NEXT, NextButtonISR)]"
  by (simp_all add: setup_sketch_def initializeDFPlayer_def Let_def initializeButtons_def
      initializeServos_def println_def delay_def attachInterrupt_def power_on_def
      playAudioForLetter_def INTRO_AUDIO_TRACK_def)

theorem deferred_press_witness:
  "isDisplayingPattern (run_state (setup_sketch 0 True 10000 power_on)) \<and>
   in_hold (lastActionTime (run_state (setup_sketch 0 True 10000 power_on))) (Poll 10510 0 0) \<and>
   in_hold (lastActionTime (run_state (setup_sketch 0 True 10000 power_on)))
     (Edge BUTTON_PREV 11000) \<and>
   in_hold (lastActionTime (run_state (setup_sketch 0 True 10000 power_on))) (Poll 11990 0 0) \<and>
   AUDIO_DISPLAY_DELAY \<le> 12000 - lastActionTime (run_state (setup_sketch 0 True 10000 power_on)) \<and>
   next_edge_recorded 10500 (run_state (setup_sketch 0 True 10000 power_on)) \<and>
   prev_edge_recorded 10500 (run_state (setup_sketch 0 True 10000 power_on)) \<and>
   1 \<le> currentPosition (run_state (setup_sketch 0 True 10000 power_on)) \<and>
   currentPosition (run_state (setup_sketch 0 True 10000 power_on)) \<le> 26 \<and>
   nextButtonPressed (fold step [Poll 10510 0 0, Edge BUTTON_PREV 11000, Poll 11990 0 0]
     (nextButtonISR 10500 (run_state (setup_sketch 0 True 10000 power_on)))) \<and>
   currentPosition (fold step [Poll 10510 0 0, Edge BUTTON_PREV 11000, Poll 11990 0 0]
     (nextButtonISR 10500 (run_state (setup_sketch 0 True 10000 power_on)))) = 1 \<and>
   next_transitions (trace (loop 12000 13000 14000
     (fold step [Poll 10510 0 0, Edge BUTTON_PREV 11000, Poll 11990 0 0]
       (nextButtonISR 10500 (run_state (setup_sketch 0 True 10000 power_on)))))) = [2] \<and>
   audio_plays (trace (loop 12000 13000 14000
     (fold step [Poll 10510 0 0, Edge BUTTON_PREV 11000, Poll 11990 0 0]
       (nextButtonISR 10500 (run_state (setup_sketch 0 True 10000 power_on)))))) =
     [27, 1, 2, 1] \<and>
   currentPosition (loop 12000 13000 14000
     (fold step [Poll 10510 0 0, Edge BUTTON_PREV 11000, Poll 11990 0 0]
       (nextButtonISR 10500 (run_state (setup_sketch 0 True 10000 power_on))))) = 1 \<and>
   lastActionTime (loop 12000 13000 14000
     (fold step [Poll 10510 0 0, Edge BUTTON_PREV 11000, Poll 11990 0 0]
       (nextButtonISR 10500 (run_state (setup_sketch 0 True 10000 power_on))))) = 14000 \<and>
   \<not> prevButtonPressed (loop 12000 13000 14000
     (fold step [Poll 10510 0 0, Edge BUTTON_PREV 11000, Poll 11990 0 0]
       (prevButtonISR 10500 (run_state (setup_sketch 0 True 10000 power_on))))) \<and>
   currentPosition (loop 12000 13000 14000
     (fold step [Poll 10510 0 0, Edge BUTTON_PREV 11000, Poll 11990 0 0]
       (prevButtonISR 10500 (run_state (setup_sketch 0 True 10000 power_on))))) = 26 \<and>
   audio_plays (trace (loop 12000 13000 14000
     (fold step [Poll 10510 0 0, Edge BUTTON_PREV 11000, Poll 11990 0 0]
       (prevButtonISR 10500 (run_state (setup_sketch 0 True 10000 power_on)))))) =
     [27, 1, 26] \<and>
   isDisplayingPattern (loop 12000 13000 14000
     (fold step [Poll 10510 0 0, Edge BUTTON_PREV 11000, Poll 11990 0 0]
       (prevButtonISR 10500 (run_state (setup_sketch 0 True 10000 power_on))))) \<and>
   lastActionTime (loop 12000 13000 14000
     (fold step [Poll 10510 0 0, Edge BUTTON_PREV 11000, Poll 11990 0 0]
       (prevButtonISR 10500 (run_state (setup_sketch 0 True 10000 power_on))))) = 14000 \<and>
   servos (loop 12000 13000 14000
     (fold step [Poll 10510 0 0, Edge BUTTON_PREV 11000, Poll 11990 0 0]
       (prevButtonISR 10500 (run_state (setup_sketch 0 True 10000 power_on))))) Dot6 =
     Some (DOT_UP Dot6) \<and>
   servos (loop 12000 13000 14000
     (fold step [Poll 10510 0 0, Edge BUTTON_PREV 11000, Poll 11990 0 0]
       (prevButtonISR 10500 (run_state (setup_sketch 0 True 10000 power_on))))) Dot2 =
     Some (DOT_DOWN Dot2)"
proof -
  let ?b = "run_state (setup_sketch 0 True 10000 power_on)"
  let ?evs = "[Poll 10510 0 0, Edge BUTTON_PREV 11000, Poll 11990 0 0]"
  let ?xn = "fold step ?evs (nextButtonISR 10500 ?b)"
  let ?xp = "fold step ?evs (prevButtonISR 10500 ?b)"
  have d: "isDisplayingPattern ?b"
    by (rule setup_completed)
  have h: "\<forall>e\<in>set ?evs. in_hold (lastActionTime ?b) e"
    by (simp add: setup_completed AUDIO_DISPLAY_DELAY_def)
  have x: "AUDIO_DISPLAY_DELAY \<le> 12000 - lastActionTime ?b"
    by (simp add: setup_completed AUDIO_DISPLAY_DELAY_def)
  have n: "next_edge_recorded 10500 ?b"
    by (simp add: next_edge_recorded_iff setup_completed)
  have p: "prev_edge_recorded 10500 ?b"
    by (simp add: prev_edge_recorded_iff setup_completed)
  have c: "currentPosition ?b = 1"
    by (rule setup_currentPosition)
  have r: "1 \<le> currentPosition ?b \<and> currentPosition ?b \<le> 26"
    by (simp add: c)
  have pending: "prevButtonPressed ?xn" "\<not> nextButtonPressed ?xp"
    by (simp_all add: loop_in_hold delay_def falling_edge_def setup_completed
        prevButtonISR_flag nextButtonISR_flag AUDIO_DISPLAY_DELAY_def BUTTON_NEXT_def
        BUTTON_PREV_def)
  have whole: "take 3 ?evs = ?evs"
    by simp
  note inst = deferred_press [OF d h x, of 10500 13000 14000]
  from inst n have nxt: "(\<forall>k. nextButtonPressed (fold step (take k ?evs) (nextButtonISR 10500 ?b)) \<and>
      currentPosition (fold step (take k ?evs) (nextButtonISR 10500 ?b)) = 1) \<and>
    next_transitions (trace (loop 12000 13000 14000 ?xn)) = [2] \<and>
    audio_plays (trace (loop 12000 13000 14000 ?xn)) = [27, 1, 2, 1] \<and>
    currentPosition (loop 12000 13000 14000 ?xn) = 1 \<and>
    lastActionTime (loop 12000 13000 14000 ?xn) = 14000"
    using pending(1) by (simp add: Let_def c setup_completed)
  then have nxt3: "nextButtonPressed (fold step (take 3 ?evs) (nextButtonISR 10500 ?b)) \<and>
      currentPosition (fold step (take 3 ?evs) (nextButtonISR 10500 ?b)) = 1"
    by blast
  from inst p r have prv: "\<not> prevButtonPressed (loop 12000 13000 14000 ?xp) \<and>
    currentPosition (loop 12000 13000 14000 ?xp) = 26 \<and>
    audio_plays (trace (loop 12000 13000 14000 ?xp)) = [27, 1, 26] \<and>
    isDisplayingPattern (loop 12000 13000 14000 ?xp) \<and>
    lastActionTime (loop 12000 13000 14000 ?xp) = 14000 \<and>
    (\<forall>d. servos (loop 12000 13000 14000 ?xp) d =
       Some (if d \<in> spec_pattern_for 26 then DOT_UP d else DOT_DOWN d))"
    using pending(2) by (simp add: Let_def c setup_completed)
  then have sv: "servos (loop 12000 13000 14000 ?xp) Dot6 = Some (DOT_UP Dot6)"
    "servos (loop 12000 13000 14000 ?xp) Dot2 = Some (DOT_DOWN Dot2)"
    by (simp_all add: spec_pattern_for_def)
  show ?thesis
    using d h x n p r nxt nxt3 prv sv by (simp only: whole) simp
qed

subsection \<open>Failure of the audio module\<close>

lemma halt_loop_eq:
  "halt_loop k s = Spinning (s\<lparr>trace := trace s @ replicate k (Delay 1000)\<rparr>)"
proof (induction k arbitrary: s)
  case 0
  then show ?case by simp
next
  case (Suc k)
  have "replicate (Suc k) (Delay 1000) = [Delay 1000] @ replicate k (Delay 1000)"
    by simp
  then show ?case
    using Suc.IH [of "delay 1000 s"] by (simp add: delay_def emit_def)
qed

lemma setup_failed:
  "setup_sketch k False t0 power_on = Spinning
     \<lparr> nextButtonPressed = False, prevButtonPressed = False,
       currentPosition = 1, lastActionTime = 0, isDisplayingPattern = False,
       nextLastInterruptTime = 0, prevLastInterruptTime = 0,
       servos = (\<lambda>d. None),
       interrupts = [(BUTTON_PREV, PrevButtonISR), (BUTTON_NEXT, NextButtonISR)],
       trace = [SerialBegin, Print Banner, PinMode BUTTON_NEXT, PinMode BUTTON_PREV,
         Print ButtonsInitialized, ServoAttach Dot1 4, ServoAttach Dot2 5, ServoAttach Dot3 26,
         ServoAttach Dot4 25, ServoAttach Dot5 33, ServoAttach Dot6 32, Print ServosInitialized,
         FPSerialBegin, Print DFPlayerFailed] @ replicate k (Delay 1000) \<rparr>"
  by (simp add: setup_sketch_def initializeDFPlayer_def Let_def initializeButtons_def
      initializeServos_def println_def emit_def attachInterrupt_def power_on_def halt_loop_eq)

lemma fold_edges_fields:
  "\<forall>e\<in>set evs. is_edge e \<Longrightarrow>
   trace (fold step evs s) = trace s \<and> servos (fold step evs s) = servos s \<and>
   interrupts (fold step evs s) = interrupts s \<and>
   currentPosition (fold step evs s) = currentPosition s \<and>
   isDisplayingPattern (fold step evs s) = isDisplayingPattern s"
proof (induction evs arbitrary: s)
  case Nil
  then show ?case by simp
next
  case (Cons e evs)
  then obtain pin t where "e = Edge pin t"
    by (cases e) auto
  then show ?case using Cons by simp
qed

lemma servo_writes_delays [simp]:
  "servo_writes (replicate k (Delay ms)) = []"
  by (induction k) simp_all

text \<open>
  Claim C7, as amended. When \<open>dfPlayer.begin\<close> returns false, \<open>setup()\<close> never
  returns, however long it is observed and whatever events arrive, so \<open>loop()\<close> is never
  called. Everything the sketch has done is the start-up messages, the pin and servo
  attachments, the failure message, and then one \<open>delay(1000)\<close> after another: no servo
  write, no audio track, no letter. The two interrupt routines were attached before the
  audio module was tried, so they still run on button edges during the halt.
\<close>

theorem audio_failure_halts:
  "is_spinning (firmware k False t0 evs power_on) \<and>
   (let h = run_state (firmware k False t0 evs power_on)
    in trace h = [SerialBegin, Print Banner, PinMode BUTTON_NEXT, PinMode BUTTON_PREV,
         Print ButtonsInitialized, ServoAttach Dot1 4, ServoAttach Dot2 5, ServoAttach Dot3 26,
         ServoAttach Dot4 25, ServoAttach Dot5 33, ServoAttach Dot6 32, Print ServosInitialized,
         FPSerialBegin, Print DFPlayerFailed] @ replicate k (Delay 1000) \<and>
       servo_writes (trace h) = [] \<and>
       DFPlay n \<notin> set (trace h) \<and>
       Delay 10 \<notin> set (trace h) \<and>
       servos h = (\<lambda>d. None) \<and>
       currentPosition h = 1 \<and>
       \<not> isDisplayingPattern h \<and>
       falling_edge BUTTON_NEXT t h = nextButtonISR t h \<and>
       falling_edge BUTTON_PREV t h = prevButtonISR t h)"
proof -
  let ?halted = "run_state (setup_sketch k False t0 power_on)"
  let ?h = "fold step (filter is_edge evs) ?halted"
  have fw: "firmware k False t0 evs power_on = Spinning ?h"
    by (simp add: firmware_def setup_failed)
  have same: "trace ?h = trace ?halted" "servos ?h = servos ?halted" "interrupts ?h = interrupts ?halted"
    "currentPosition ?h = currentPosition ?halted" "isDisplayingPattern ?h = isDisplayingPattern ?halted"
    using fold_edges_fields [of "filter is_edge evs" ?halted] by simp_all
  have tr0: "trace ?halted = [SerialBegin, Print Banner, PinMode BUTTON_NEXT, PinMode BUTTON_PREV,
         Print ButtonsInitialized, ServoAttach Dot1 4, ServoAttach Dot2 5, ServoAttach Dot3 26,
         ServoAttach Dot4 25, ServoAttach Dot5 33, ServoAttach Dot6 32, Print ServosInitialized,
         FPSerialBegin, Print DFPlayerFailed] @ replicate k (Delay 1000)"
    by (simp add: setup_failed)
  have tr: "trace ?h = [SerialBegin, Print Banner, PinMode BUTTON_NEXT, PinMode BUTTON_PREV,
         Print ButtonsInitialized, ServoAttach Dot1 4, ServoAttach Dot2 5, ServoAttach Dot3 26,
         ServoAttach Dot4 25, ServoAttach Dot5 33, ServoAttach Dot6 32, Print ServosInitialized,
         FPSerialBegin, Print DFPlayerFailed] @ replicate k (Delay 1000)"
    using tr0 by (simp only: same)
  have obs: "servo_writes (trace ?h) = []" "DFPlay n \<notin> set (trace ?h)"
    "Delay 10 \<notin> set (trace ?h)"
    by (simp_all add: tr)
  have st0: "servos ?halted = (\<lambda>d. None)" "currentPosition ?halted = 1"
    "\<not> isDisplayingPattern ?halted"
    "interrupts ?halted = [(BUTTON_PREV, PrevButtonISR), (BUTTON_NEXT, NextButtonISR)]"
    by (simp_all add: setup_failed)
  have st: "servos ?h = (\<lambda>d. None)" "currentPosition ?h = 1" "\<not> isDisplayingPattern ?h"
    "interrupts ?h = [(BUTTON_PREV, PrevButtonISR), (BUTTON_NEXT, NextButtonISR)]"
    using st0 by (simp_all add: same)
  have isr: "falling_edge BUTTON_NEXT t ?h = nextButtonISR t ?h"
    "falling_edge BUTTON_PREV t ?h = prevButtonISR t ?h"
    by (simp_all add: falling_edge_def st(4) BUTTON_NEXT_def BUTTON_PREV_def)
  show ?thesis
    using tr obs st(1,2,3) isr by (simp only: fw Let_def run_state.simps is_spinning.simps) simp
qed

text \<open>
  Claim C7 as stated fails in its last part: in the halted firmware a falling edge on the
  NEXT pin at 300 ms runs \<open>nextButtonISR\<close>, which sets the pending flag and stores the
  time.
\<close>

theorem interrupts_reached_counterexample:
  "is_spinning (firmware 3 False 0 [Edge BUTTON_NEXT 300] power_on) \<and>
   \<not> nextButtonPressed (run_state (firmware 3 False 0 [] power_on)) \<and>
   nextButtonPressed (run_state (firmware 3 False 0 [Edge BUTTON_NEXT 300] power_on)) \<and>
   nextLastInterruptTime (run_state (firmware 3 False 0 [Edge BUTTON_NEXT 300] power_on)) = 300"
  by (simp add: firmware_def setup_failed falling_edge_def nextButtonISR_def DEBOUNCE_DELAY_def
      BUTTON_NEXT_def BUTTON_PREV_def)

end
